theory Spec2Isabelle
  imports Complex_Main "HOL-Library.AList"
begin

section \<open>Shared helpers: Python strings\<close>

text \<open>
  Python strings are modelled as \<open>string\<close>, one \<open>char\<close> per code point, so that
  \<open>length\<close> is Python's \<open>len\<close>. The newline of \<open>"\n"\<close> is \<open>CHR 0x0A\<close>.
\<close>

definition nl :: string where
  "nl = [CHR 0x0A]"

text \<open>\<open>str(n)\<close> for a non-negative integer: its decimal digits.\<close>

definition digit_char :: "nat \<Rightarrow> char" where
  "digit_char d = ''0123456789'' ! d"

fun str_nat :: "nat \<Rightarrow> string" where
  "str_nat n = (if n < 10 then [digit_char n]
                else str_nat (n div 10) @ [digit_char (n mod 10)])"

declare str_nat.simps [simp del]

text \<open>\<open>"\n".join(parts)\<close>.\<close>

fun join_nl :: "string list \<Rightarrow> string" where
  "join_nl [] = []"
| "join_nl [p] = p"
| "join_nl (p # q # ps) = p @ nl @ join_nl (q # ps)"

text \<open>
  \<open>s.strip()\<close>: leading and trailing whitespace removed. \<open>is_space\<close> holds the
  characters of \<open>str.isspace\<close> among the code points up to 255, the range of \<open>char\<close>;
  Unicode whitespace beyond it (U+1680, U+2000 and others) is outside the model.
\<close>

definition is_space :: "char \<Rightarrow> bool" where
  "is_space c = (c \<in> set [CHR 0x20, CHR 0x09, CHR 0x0A, CHR 0x0B, CHR 0x0C, CHR 0x0D,
                           CHR 0x1C, CHR 0x1D, CHR 0x1E, CHR 0x1F, CHR 0x85, CHR 0xA0])"

definition strip :: "string \<Rightarrow> string" where
  "strip s = rev (dropWhile is_space (rev (dropWhile is_space s)))"

text \<open>Truthiness of an optional string (\<open>if item.get('title'):\<close>): present and not empty.\<close>

fun truthy :: "string option \<Rightarrow> bool" where
  "truthy None = False"
| "truthy (Some s) = (s \<noteq> [])"


section \<open>Conversation truncation (backend/chat/truncation.py)\<close>

subsection \<open>Data model (backend/models/chat.py)\<close>

datatype MessageRole = SYSTEM | USER | ASSISTANT

datatype meta_value = MNone | MBool bool | MInt int | MStr string | MList "string list"

text \<open>\<open>ChatMessage\<close>; a \<open>datetime\<close> is a point of time counted in some fixed unit.\<close>

record ChatMessage =
  msg_id :: string
  role :: MessageRole
  content :: string
  timestamp :: nat
  provider :: "string option"
  model :: "string option"
  usage :: "(string \<times> int) list option"
  msg_metadata :: "(string \<times> meta_value) list"

record ConfigModel =
  active_provider :: "string option"
  active_model :: "string option"

text \<open>
  What the truncator reads from outside the repository's own code:
  \<^item> \<open>config\<close>: \<open>self.config_manager.config\<close>; \<open>None\<close> when reading it raises;
  \<^item> \<open>get_encoding\<close>: \<open>tiktoken.get_encoding("cl100k_base")\<close>; \<open>None\<close> when it raises,
    otherwise the function \<open>\<lambda>s. len(encoding.encode(s))\<close>, itself \<open>None\<close> where
    \<open>encode\<close> raises (tiktoken does so on text holding a special token);
  \<^item> \<open>adapter_chat\<close>: the content of the provider's answer to the summary prompt;
    \<open>None\<close> when looking the adapter up or calling it raises;
  \<^item> \<open>strftime\<close>: \<open>timestamp.strftime('%Y-%m-%d %H:%M')\<close>, \<open>None\<close> when it raises;
  \<^item> \<open>now_id\<close>, \<open>now_timestamp\<close>: the two readings of \<open>datetime.now()\<close> that the summary
    message takes, for its id and for its timestamp; \<open>isoformat\<close>: \<open>isoformat()\<close>.
\<close>

record truncator_env =
  config :: "ConfigModel option"
  get_encoding :: "(string \<Rightarrow> nat option) option"
  adapter_chat :: "string \<Rightarrow> string option"
  strftime :: "nat \<Rightarrow> string option"
  now_id :: nat
  now_timestamp :: nat
  isoformat :: "nat \<Rightarrow> string"

datatype truncation_error = TokenizerError

subsection \<open>Token limits\<close>

definition provider_limits :: "(string \<times> (string \<times> int) list) list" where
  "provider_limits =
    [(''openai'', [(''gpt-4'', 8192), (''gpt-4-32k'', 32768),
                   (''gpt-3.5-turbo'', 4096), (''gpt-3.5-turbo-16k'', 16384)]),
     (''anthropic'', [(''claude-3-sonnet'', 200000), (''claude-3-haiku'', 200000),
                      (''claude-3-opus'', 200000)]),
     (''moonshot'', [(''moonshot-v1-8k'', 8192), (''moonshot-v1-32k'', 32768),
                     (''moonshot-v1-128k'', 131072)])]"

definition default_limit :: int where
  "default_limit = 4096"

definition response_reserve :: int where
  "response_reserve = 1000"

definition system_reserve :: int where
  "system_reserve = 500"

definition get_token_limit :: "truncator_env \<Rightarrow> int" where
  "get_token_limit env =
    (case config env of
       None \<Rightarrow> default_limit
     | Some cfg \<Rightarrow>
         if truthy (active_provider cfg) \<and> truthy (active_model cfg) then
           (case map_of provider_limits (the (active_provider cfg)) of
              None \<Rightarrow> default_limit
            | Some limits \<Rightarrow>
                (case map_of limits (the (active_model cfg)) of
                   None \<Rightarrow> default_limit
                 | Some l \<Rightarrow> l))
         else default_limit)"

definition available_tokens :: "truncator_env \<Rightarrow> int" where
  "available_tokens env = get_token_limit env - response_reserve - system_reserve"

subsection \<open>Counting tokens\<close>

text \<open>The body of the \<open>try\<close> of \<open>_count_conversation_tokens\<close>: \<open>None\<close> when it raises.\<close>

fun count_loop :: "(string \<Rightarrow> nat option) \<Rightarrow> ChatMessage list \<Rightarrow> int \<Rightarrow> int option" where
  "count_loop enc [] total_tokens = Some total_tokens"
| "count_loop enc (m # ms) total_tokens =
     (case enc (content m) of
        None \<Rightarrow> None
      | Some n \<Rightarrow> count_loop enc ms (total_tokens + int n + 4))"

definition count_with_tokenizer :: "truncator_env \<Rightarrow> ChatMessage list \<Rightarrow> string \<Rightarrow> int option" where
  "count_with_tokenizer env messages new_message_content =
    (case get_encoding env of
       None \<Rightarrow> None
     | Some enc \<Rightarrow>
         (case count_loop enc messages 0 of
            None \<Rightarrow> None
          | Some total_tokens \<Rightarrow>
              if new_message_content \<noteq> [] then
                (case enc new_message_content of
                   None \<Rightarrow> None
                 | Some n \<Rightarrow> Some (total_tokens + int n + 4))
              else Some total_tokens))"

text \<open>The \<open>except\<close> branch: four characters per token, no per-message overhead.\<close>

definition char_estimate :: "ChatMessage list \<Rightarrow> string \<Rightarrow> int" where
  "char_estimate messages new_message_content =
    (let char_count = sum_list (map (\<lambda>msg. int (length (content msg))) messages);
         char_count' = (if new_message_content \<noteq> [] then char_count + int (length new_message_content)
                        else char_count)
     in char_count' div 4)"

definition count_conversation_tokens :: "truncator_env \<Rightarrow> ChatMessage list \<Rightarrow> string \<Rightarrow> int" where
  "count_conversation_tokens env messages new_message_content =
    (case count_with_tokenizer env messages new_message_content of
       Some total_tokens \<Rightarrow> total_tokens
     | None \<Rightarrow> char_estimate messages new_message_content)"

subsection \<open>The summary message\<close>

definition summary_prompt :: "string \<Rightarrow> string" where
  "summary_prompt conversation_text =
     ''Please create a concise summary of this conversation that captures the key topics, decisions, and context that would be important for continuing the discussion:''
     @ nl @ nl @ take 2000 conversation_text @ ''  # Limit input to prevent token overflow''
     @ nl @ nl @ ''Provide a summary in 2-3 sentences that maintains the essential context.''"

definition generate_summary :: "truncator_env \<Rightarrow> string \<Rightarrow> string option" where
  "generate_summary env conversation_text =
    (case config env of
       None \<Rightarrow> None
     | Some cfg \<Rightarrow>
         if \<not> truthy (active_provider cfg) then None
         else (case adapter_chat env (summary_prompt conversation_text) of
                 None \<Rightarrow> None
               | Some response \<Rightarrow> Some (''[Previous conversation summary: '' @ strip response @ '']'')))"

fun conversation_text :: "ChatMessage list \<Rightarrow> string" where
  "conversation_text [] = []"
| "conversation_text (msg # msgs) =
     ((if role msg = USER then ''User: '' else ''Assistant: '') @ content msg @ nl @ nl)
     @ conversation_text msgs"

text \<open>The fallback text; \<open>None\<close> when \<open>strftime\<close> raises.\<close>

definition placeholder_summary :: "truncator_env \<Rightarrow> ChatMessage list \<Rightarrow> string option" where
  "placeholder_summary env messages =
    (case strftime env (timestamp (hd messages)) of
       None \<Rightarrow> None
     | Some t0 \<Rightarrow>
         (case strftime env (timestamp (last messages)) of
            None \<Rightarrow> None
          | Some t1 \<Rightarrow>
              Some (''[Conversation summary: '' @ str_nat (length messages)
                    @ '' earlier messages from '' @ t0 @ '' to '' @ t1 @ '']'')))"

definition summary_message :: "truncator_env \<Rightarrow> string \<Rightarrow> nat \<Rightarrow> ChatMessage" where
  "summary_message env summary_content n =
    \<lparr> msg_id = ''summary_'' @ isoformat env (now_id env),
      role = SYSTEM,
      content = summary_content,
      timestamp = now_timestamp env,
      provider = None,
      model = None,
      usage = None,
      msg_metadata = [(''is_summary'', MBool True), (''summarized_count'', MInt (int n))] \<rparr>"

text \<open>\<open>_create_conversation_summary\<close>: \<open>None\<close> for no messages and when its body raises.\<close>

definition create_conversation_summary :: "truncator_env \<Rightarrow> ChatMessage list \<Rightarrow> ChatMessage option" where
  "create_conversation_summary env messages =
    (if messages = [] then None
     else
       (case generate_summary env (conversation_text messages) of
          Some summary_content \<Rightarrow>
            if summary_content \<noteq> [] then Some (summary_message env summary_content (length messages))
            else map_option (\<lambda>c. summary_message env c (length messages)) (placeholder_summary env messages)
        | None \<Rightarrow>
            map_option (\<lambda>c. summary_message env c (length messages)) (placeholder_summary env messages)))"

subsection \<open>Truncation\<close>

text \<open>
  The source compares \<open>recent_tokens + message_tokens <= target_tokens * 0.7\<close>, an
  integer against a double. For the six values \<open>target_tokens\<close> takes (a limit of the
  table or the default, minus the reserves 1500) and for 500 the double
  \<open>target_tokens * 0.7\<close> has the floor \<open>7 * target_tokens div 10\<close>, so the comparison
  is \<open>10 * (recent_tokens + message_tokens) \<le> 7 * target_tokens\<close>. At other targets the
  double can fall below the exact product (at 90 it is 62.99999999999999), and the two
  comparisons differ for a token count that meets the product exactly.
\<close>

definition within_recent_budget :: "int \<Rightarrow> int \<Rightarrow> bool" where
  "within_recent_budget tokens target_tokens = (10 * tokens \<le> 7 * target_tokens)"

text \<open>
  The backwards loop, over the messages newest first. It raises where \<open>encode\<close> does.
\<close>

fun recent_loop ::
  "(string \<Rightarrow> nat option) \<Rightarrow> int \<Rightarrow> ChatMessage list \<Rightarrow> ChatMessage list \<Rightarrow> int
     \<Rightarrow> truncation_error + ChatMessage list" where
  "recent_loop enc target_tokens [] recent_messages recent_tokens = Inr recent_messages"
| "recent_loop enc target_tokens (message # older) recent_messages recent_tokens =
     (case enc (content message) of
        None \<Rightarrow> Inl TokenizerError
      | Some n \<Rightarrow>
          (let message_tokens = int n + 4 in
           if within_recent_budget (recent_tokens + message_tokens) target_tokens
           then recent_loop enc target_tokens older (message # recent_messages)
                  (recent_tokens + message_tokens)
           else Inr recent_messages))"

text \<open>\<open>len(encoding.encode(message.content)) + 4\<close>, where \<open>encode\<close> returns.\<close>

definition message_tokens :: "(string \<Rightarrow> nat option) \<Rightarrow> ChatMessage \<Rightarrow> int" where
  "message_tokens enc m = int (the (enc (content m))) + 4"

definition min_keep_messages :: nat where
  "min_keep_messages = 4"

definition truncate_conversation ::
  "truncator_env \<Rightarrow> ChatMessage list \<Rightarrow> int \<Rightarrow> truncation_error + ChatMessage list" where
  "truncate_conversation env messages target_tokens =
    (if messages = [] then Inr messages
     else if length messages \<le> min_keep_messages then Inr messages
     else
       (case get_encoding env of
          None \<Rightarrow> Inl TokenizerError
        | Some enc \<Rightarrow>
            (case recent_loop enc target_tokens (rev messages) [] 0 of
               Inl e \<Rightarrow> Inl e
             | Inr recent_messages \<Rightarrow>
                 if length recent_messages < min_keep_messages
                 then Inr (drop (length messages - min_keep_messages) messages)
                 else
                   (let older_messages = take (length messages - length recent_messages) messages in
                    if older_messages \<noteq> [] then
                      (case create_conversation_summary env older_messages of
                         Some summary \<Rightarrow> Inr (summary # recent_messages)
                       | None \<Rightarrow> Inr recent_messages)
                    else Inr recent_messages))))"

text \<open>\<open>truncate_if_needed\<close>: whatever its body raises, it returns \<open>messages\<close>.\<close>

definition truncate_if_needed :: "truncator_env \<Rightarrow> ChatMessage list \<Rightarrow> string \<Rightarrow> ChatMessage list" where
  "truncate_if_needed env messages new_message_content =
    (let token_limit = get_token_limit env;
         available = token_limit - response_reserve - system_reserve;
         total_tokens = count_conversation_tokens env messages new_message_content
     in if total_tokens \<le> available then messages
        else (case truncate_conversation env messages available of
                Inl e \<Rightarrow> messages
              | Inr truncated \<Rightarrow> truncated))"


section \<open>Vector store (backend/rag/storage.py)\<close>

subsection \<open>State\<close>

text \<open>
  A metadata dictionary: \<open>item_id\<close> is \<open>None\<close> when the key is missing (reading
  \<open>metadata['item_id']\<close> then raises \<open>KeyError\<close>), \<open>deleted\<close> is
  \<open>metadata.get('deleted', False)\<close>, \<open>other_fields\<close> holds the other keys.
  Dictionaries are values here. In the source the store keeps the caller's dictionary
  object itself, and \<open>remove_embedding\<close> writes \<open>deleted\<close> into that object: a
  dictionary handed over for two slots, or kept by the caller, would change with it.
  The callers in \<open>engine.py\<close> build a new dictionary for every item, and the model
  is of stores filled that way.
\<close>

record Metadata =
  item_id :: "string option"
  deleted :: bool
  source_id :: "string option"
  other_fields :: "(string \<times> meta_value) list"

type_synonym vector = "real list"

text \<open>
  The store. \<open>index\<close> is the FAISS \<open>IndexFlatIP\<close>: the rows added so far, a row's
  position being its FAISS id, and \<open>ntotal\<close> its length. \<open>metadata\<close> is a dictionary
  in insertion order; \<open>disk\<close> is what the three files hold, \<open>None\<close> before the first
  write.
\<close>

record VectorStore =
  dimension :: nat
  index :: "vector list"
  metadata :: "(nat \<times> Metadata) list"
  id_to_faiss :: "string \<rightharpoonup> nat"
  faiss_to_id :: "nat \<rightharpoonup> string"
  next_faiss_id :: nat
  disk :: "(vector list \<times> (nat \<times> Metadata) list \<times> (string \<rightharpoonup> nat) \<times> (nat \<rightharpoonup> string) \<times> nat) option"

datatype store_error = ValueError | DimensionError | KeyError | ModelError

definition create_new_index :: "nat \<Rightarrow> VectorStore" where
  "create_new_index d =
    \<lparr> dimension = d, index = [], metadata = [], id_to_faiss = Map.empty,
      faiss_to_id = Map.empty, next_faiss_id = 0, disk = None \<rparr>"

text \<open>\<open>_save_index\<close>, the writes taken to succeed.\<close>

definition save_index :: "VectorStore \<Rightarrow> VectorStore" where
  "save_index st =
    st\<lparr>disk := Some (index st, metadata st, id_to_faiss st, faiss_to_id st, next_faiss_id st)\<rparr>"

subsection \<open>Numbers\<close>

text \<open>
  The numbers of the source are \<open>float32\<close> values. A number is modelled as the real it
  denotes, so a comparison of two numbers is exact; the operations that round, and
  FAISS's search, are given to the store from outside:
  \<^item> \<open>row_norm\<close>: \<open>np.linalg.norm\<close> of one row;
  \<^item> \<open>fdiv\<close>: the division of \<open>embeddings / norms\<close>;
  \<^item> \<open>faiss_search\<close>: \<open>index.search(query, n)\<close> of \<open>IndexFlatIP\<close>, as the pairs of
    similarity and position that \<open>zip(similarities[0], indices[0])\<close> yields.
\<close>

record numerics =
  row_norm :: "vector \<Rightarrow> real"
  fdiv :: "real \<Rightarrow> real \<Rightarrow> real"
  faiss_search :: "vector list \<Rightarrow> vector \<Rightarrow> nat \<Rightarrow> (real \<times> nat) list"

text \<open>
  The same operations without rounding: the Euclidean norm, the quotient, and the \<open>n\<close>
  rows of greatest inner product with the query, greatest first, rows of equal inner
  product in the order of their positions (FAISS leaves that order open). Where every
  number that occurs, on the way as well, is an integer from -4 to 4 or a half of one,
  and the inner products with the query differ from row to row, the \<open>float32\<close>
  operations and FAISS give these very results; the examples below are of that kind.
\<close>

definition l2_norm :: "vector \<Rightarrow> real" where
  "l2_norm v = sqrt (sum_list (map (\<lambda>x. x * x) v))"

definition inner_product :: "vector \<Rightarrow> vector \<Rightarrow> real" where
  "inner_product u v = sum_list (map2 (*) u v)"

definition index_search :: "vector list \<Rightarrow> vector \<Rightarrow> nat \<Rightarrow> (real \<times> nat) list" where
  "index_search rows query n =
    take n (sort_key (\<lambda>(similarity, faiss_id). - similarity)
              (zip (map (inner_product query) rows) [0..<length rows]))"

definition exact_numerics :: numerics where
  "exact_numerics = \<lparr>row_norm = l2_norm, fdiv = (/), faiss_search = index_search\<rparr>"

subsection \<open>Normalisation\<close>

text \<open>One row of \<open>_normalize_embeddings\<close>: a norm of 0 is replaced by 1.\<close>

definition normalize_row :: "numerics \<Rightarrow> vector \<Rightarrow> vector" where
  "normalize_row nu v =
    (let norm = row_norm nu v;
         norm' = (if norm = 0 then 1 else norm)
     in map (\<lambda>x. fdiv nu x norm') v)"

definition normalize_embeddings :: "numerics \<Rightarrow> vector list \<Rightarrow> vector list" where
  "normalize_embeddings nu embeddings = map (normalize_row nu) embeddings"

subsection \<open>Adding, updating, removing\<close>

text \<open>
  The loop of \<open>add_embeddings\<close> that stores metadata and mappings. It raises
  \<open>KeyError\<close> at a metadata entry without \<open>item_id\<close>, keeping what it has written.
\<close>

fun store_loop :: "nat \<Rightarrow> Metadata list \<Rightarrow> VectorStore \<Rightarrow> store_error option \<times> VectorStore" where
  "store_loop faiss_id [] st = (None, st)"
| "store_loop faiss_id (m # ms) st =
     (case item_id m of
        None \<Rightarrow> (Some KeyError, st)
      | Some iid \<Rightarrow>
          store_loop (Suc faiss_id) ms
            (st\<lparr>metadata := AList.update faiss_id m (metadata st),
                id_to_faiss := (id_to_faiss st)(iid \<mapsto> faiss_id),
                faiss_to_id := (faiss_to_id st)(faiss_id \<mapsto> iid)\<rparr>))"

text \<open>
  \<open>add_embeddings\<close>: the error raised, if any, and the store afterwards.
  \<open>index.add\<close> refuses rows whose length is not the index's dimension, before it
  adds any.
\<close>

definition add_embeddings ::
  "numerics \<Rightarrow> VectorStore \<Rightarrow> vector list \<Rightarrow> Metadata list \<Rightarrow> store_error option \<times> VectorStore" where
  "add_embeddings nu st embeddings metadata_list =
    (if length embeddings \<noteq> length metadata_list then (Some ValueError, st)
     else if embeddings = [] then (None, st)
     else if \<exists>v \<in> set embeddings. length v \<noteq> dimension st then (Some DimensionError, st)
     else
       (let normalized_embeddings = normalize_embeddings nu embeddings;
            start_id = next_faiss_id st;
            st1 = st\<lparr>index := index st @ normalized_embeddings\<rparr>
        in case store_loop start_id metadata_list st1 of
             (Some e, st2) \<Rightarrow> (Some e, st2)
           | (None, st2) \<Rightarrow>
               (None, save_index (st2\<lparr>next_faiss_id := next_faiss_id st2 + length embeddings\<rparr>))))"

definition remove_embedding :: "VectorStore \<Rightarrow> string \<Rightarrow> VectorStore" where
  "remove_embedding st iid =
    (case id_to_faiss st iid of
       None \<Rightarrow> st
     | Some faiss_id \<Rightarrow>
         save_index
           (st\<lparr>metadata :=
                 (case map_of (metadata st) faiss_id of
                    Some m \<Rightarrow> AList.update faiss_id (m\<lparr>deleted := True\<rparr>) (metadata st)
                  | None \<Rightarrow> metadata st),
               id_to_faiss := (id_to_faiss st)(iid := None)\<rparr>))"

definition update_embedding ::
  "numerics \<Rightarrow> VectorStore \<Rightarrow> string \<Rightarrow> vector \<Rightarrow> Metadata \<Rightarrow> store_error option \<times> VectorStore" where
  "update_embedding nu st iid embedding m =
    (let st1 = (if id_to_faiss st iid \<noteq> None then remove_embedding st iid else st)
     in add_embeddings nu st1 [embedding] [m])"

subsection \<open>Search\<close>

record SearchResult =
  result_metadata :: Metadata
  result_similarity :: real

text \<open>The loop of \<open>search\<close> over the candidates, with its \<open>continue\<close>s and its \<open>break\<close>.\<close>

fun search_loop ::
  "(nat \<rightharpoonup> Metadata) \<Rightarrow> int \<Rightarrow> real \<Rightarrow> (real \<times> nat) list \<Rightarrow> SearchResult list \<Rightarrow> SearchResult list" where
  "search_loop md k min_similarity [] results = results"
| "search_loop md k min_similarity ((similarity, faiss_id) # candidates) results =
     (if similarity < min_similarity then search_loop md k min_similarity candidates results
      else
        (case md faiss_id of
           Some m \<Rightarrow>
             if deleted m then search_loop md k min_similarity candidates results
             else
               (let results' = results @ [\<lparr>result_metadata = m, result_similarity = similarity\<rparr>]
                in if int (length results') \<ge> k then results'
                   else search_loop md k min_similarity candidates results')
         | None \<Rightarrow>
             if int (length results) \<ge> k then results
             else search_loop md k min_similarity candidates results))"

text \<open>
  The candidates \<open>search\<close> walks through: \<open>None\<close> where FAISS raises (a query of the
  wrong dimension, no positive number of neighbours asked for), which \<open>search\<close>
  catches.
\<close>

definition raw_candidates ::
  "numerics \<Rightarrow> VectorStore \<Rightarrow> vector \<Rightarrow> int \<Rightarrow> (real \<times> nat) list option" where
  "raw_candidates nu st query_embedding k =
    (let normalized_query = normalize_row nu query_embedding;
         n = min (k * 2) (int (length (index st)))
     in if length query_embedding \<noteq> dimension st then None
        else if n \<le> 0 then None
        else Some (faiss_search nu (index st) normalized_query (nat n)))"

definition search ::
  "numerics \<Rightarrow> VectorStore \<Rightarrow> vector \<Rightarrow> int \<Rightarrow> real \<Rightarrow> SearchResult list" where
  "search nu st query_embedding k min_similarity =
    (if length (index st) = 0 then []
     else
       (case raw_candidates nu st query_embedding k of
          None \<Rightarrow> []
        | Some candidates \<Rightarrow> search_loop (map_of (metadata st)) k min_similarity candidates []))"

definition get_embedding_metadata :: "VectorStore \<Rightarrow> string \<Rightarrow> Metadata option" where
  "get_embedding_metadata st iid =
    (case id_to_faiss st iid of
       None \<Rightarrow> None
     | Some faiss_id \<Rightarrow>
         (case map_of (metadata st) faiss_id of
            Some m \<Rightarrow> if \<not> deleted m then Some m else None
          | None \<Rightarrow> None))"

record Stats =
  total_embeddings :: nat
  active_embeddings :: nat
  deleted_embeddings :: nat
  stats_dimension :: nat

definition get_stats :: "VectorStore \<Rightarrow> Stats" where
  "get_stats st =
    \<lparr> total_embeddings = length (index st),
      active_embeddings = length (filter (\<lambda>m. \<not> deleted m) (map snd (metadata st))),
      deleted_embeddings = length (filter (\<lambda>m. deleted m) (map snd (metadata st))),
      stats_dimension = dimension st \<rparr>"


section \<open>Embeddings (backend/rag/embeddings.py)\<close>

text \<open>
  What the embedding manager takes from outside:
  \<^item> \<open>model_loads\<close>: \<open>_load_model\<close> returns; it raises otherwise;
  \<^item> \<open>embedding_dim\<close>: the dimension, as read from the model once it is loaded;
  \<^item> \<open>model_encode\<close>: the row \<open>self.model.encode\<close> returns for one text, \<open>None\<close> where it
    raises; a row is taken not to depend on the other texts of its batch;
  \<^item> \<open>sha256_16\<close>: the first 16 hexadecimal digits of the SHA-256 of a text;
  \<^item> \<open>created_now\<close>: \<open>np.datetime64('now')\<close> as a string;
  \<^item> \<open>date_isoformat\<close>: \<open>isoformat()\<close> of a date.
\<close>

record embedding_env =
  model_loads :: bool
  embedding_dim :: nat
  model_encode :: "string \<Rightarrow> vector option"
  sha256_16 :: "string \<Rightarrow> string"
  created_now :: string
  date_isoformat :: "nat \<Rightarrow> string"

text \<open>\<open>text.split()\<close>: the maximal runs of characters that are not whitespace.\<close>

fun split_ws :: "string \<Rightarrow> string \<Rightarrow> string list" where
  "split_ws [] word = (if word = [] then [] else [word])"
| "split_ws (c # cs) word =
     (if is_space c then (if word = [] then split_ws cs [] else word # split_ws cs [])
      else split_ws cs (word @ [c]))"

text \<open>\<open>" ".join(words)\<close>.\<close>

fun join_space :: "string list \<Rightarrow> string" where
  "join_space [] = []"
| "join_space [w] = w"
| "join_space (w # v # ws) = w @ '' '' @ join_space (v # ws)"

definition clean_text :: "string \<Rightarrow> string" where
  "clean_text t =
    (if t = [] then []
     else
       (let cleaned = join_space (split_ws t [])
        in if length cleaned > 8000 then take 8000 cleaned @ ''...'' else cleaned))"


text \<open>\<open>encode_batch\<close>: zero rows for all texts where the model raises on one.\<close>

definition encode_batch :: "embedding_env \<Rightarrow> string list \<Rightarrow> store_error + vector list" where
  "encode_batch env texts =
    (if \<not> model_loads env then Inl ModelError
     else if texts = [] then Inr []
     else
       (let cleaned_texts = map clean_text texts
        in if list_all (\<lambda>t. model_encode env t \<noteq> None) cleaned_texts
           then Inr (map (\<lambda>t. the (model_encode env t)) cleaned_texts)
           else Inr (replicate (length texts) (replicate (embedding_dim env) 0))))"

definition create_embedding_metadata ::
  "embedding_env \<Rightarrow> string \<Rightarrow> string \<Rightarrow> string option \<Rightarrow> Metadata" where
  "create_embedding_metadata env iid t sid =
    \<lparr> item_id = Some iid, deleted = False, source_id = sid,
      other_fields = [(''text_hash'', MStr (sha256_16 env t)),
                      (''text_length'', MInt (int (length t))),
                      (''created_at'', MStr (created_now env))] \<rparr>"


section \<open>Indexing (backend/rag/engine.py)\<close>

text \<open>
  \<open>SourceItem\<close> of \<open>models/source.py\<close>; \<open>src_source_id\<close> is \<open>item.raw.get('source_id')\<close>,
  \<open>None\<close> for an empty \<open>raw\<close>. The id of an item is the SHA-1 of its URL.
\<close>

record SourceItem =
  src_id :: string
  src_title :: string
  src_url :: string
  src_published_at :: nat
  src_summary :: "string option"
  src_content :: "string option"
  src_author :: "string option"
  src_tags :: "string list"
  src_source_id :: "string option"

definition combined_text :: "SourceItem \<Rightarrow> string" where
  "combined_text item =
    join_nl
      ((if src_title item \<noteq> [] then [''Title: '' @ src_title item] else [])
       @ (if truthy (src_summary item) then [''Summary: '' @ the (src_summary item)] else [])
       @ (if truthy (src_content item)
          then [''Content: '' @ (if length (the (src_content item)) > 5000
                                 then take 5000 (the (src_content item))
                                 else the (src_content item))]
          else []))"

definition item_metadata :: "embedding_env \<Rightarrow> SourceItem \<Rightarrow> string \<Rightarrow> Metadata" where
  "item_metadata env item t =
    (let m = create_embedding_metadata env (src_id item) t (src_source_id item)
     in m\<lparr>other_fields := other_fields m @
            [(''title'', MStr (src_title item)),
             (''url'', MStr (src_url item)),
             (''published_at'', MStr (date_isoformat env (src_published_at item))),
             (''author'', (case src_author item of None \<Rightarrow> MNone | Some a \<Rightarrow> MStr a)),
             (''tags'', MList (src_tags item))]\<rparr>)"

text \<open>
  The loop of \<open>index_items\<close> that gathers texts and metadata. It skips an item whose
  id \<open>get_embedding_metadata\<close> finds in the store, and an item without text. The store
  does not change during the loop.
\<close>

fun gather_items ::
  "embedding_env \<Rightarrow> VectorStore \<Rightarrow> SourceItem list \<Rightarrow> string list \<Rightarrow> Metadata list
     \<Rightarrow> string list \<times> Metadata list" where
  "gather_items env st [] texts metadata_list = (texts, metadata_list)"
| "gather_items env st (item # items) texts metadata_list =
     (if get_embedding_metadata st (src_id item) \<noteq> None
      then gather_items env st items texts metadata_list
      else if strip (combined_text item) = []
      then gather_items env st items texts metadata_list
      else gather_items env st items (texts @ [combined_text item])
             (metadata_list @ [item_metadata env item (combined_text item)]))"

text \<open>\<open>index_items\<close>: whatever is raised is raised again.\<close>

definition index_items ::
  "numerics \<Rightarrow> embedding_env \<Rightarrow> VectorStore \<Rightarrow> SourceItem list \<Rightarrow> store_error option \<times> VectorStore" where
  "index_items nu env st items =
    (if items = [] then (None, st)
     else
       (case gather_items env st items [] [] of
          (texts, metadata_list) \<Rightarrow>
            if texts = [] then (None, st)
            else
              (case encode_batch env texts of
                 Inl e \<Rightarrow> (Some e, st)
               | Inr embeddings \<Rightarrow> add_embeddings nu st embeddings metadata_list)))"

definition remove_item_index :: "VectorStore \<Rightarrow> string \<Rightarrow> VectorStore" where
  "remove_item_index st iid = remove_embedding st iid"


section \<open>Context prompt (backend/rag/retrieval.py)\<close>

text \<open>
  A retrieved item, a dictionary: a text key is \<open>None\<close> when it is missing or holds
  Python's \<open>None\<close>, \<open>similarity\<close> is \<open>None\<close> when the key is missing.
\<close>

record ContextItem =
  similarity :: "real option"
  title :: "string option"
  url :: "string option"
  author :: "string option"
  item_content :: "string option"
  summary :: "string option"

text \<open>
  The text of one item. \<open>fmt2f\<close> is Python's formatting \<open>f"{x:.2f}"\<close> of a number,
  \<open>i\<close> the item's number from 1, \<open>current_length\<close> the characters counted so far.
\<close>

definition item_summary ::
  "(real \<Rightarrow> string) \<Rightarrow> int \<Rightarrow> int \<Rightarrow> nat \<Rightarrow> ContextItem \<Rightarrow> string" where
  "item_summary fmt2f max_context_length current_length i item =
    (let s0 = ''Source '' @ str_nat i @ '' (similarity: ''
              @ fmt2f (case similarity item of None \<Rightarrow> 0 | Some x \<Rightarrow> x) @ ''):'';
         s1 = (if truthy (title item) then s0 @ nl @ ''Title: '' @ the (title item) else s0);
         s2 = (if truthy (url item) then s1 @ nl @ ''URL: '' @ the (url item) else s1);
         s3 = (if truthy (author item) then s2 @ nl @ ''Author: '' @ the (author item) else s2);
         content = (if truthy (item_content item) then the (item_content item)
                    else (case summary item of None \<Rightarrow> [] | Some s \<Rightarrow> s));
         s4 = (if content \<noteq> [] then
                 (let remaining_space = max_context_length - current_length - int (length s3) - 100
                  in if remaining_space > 100 then
                       s3 @ nl @ ''Content: ''
                          @ (if int (length content) > remaining_space
                             then take (nat remaining_space) content @ ''...''
                             else content)
                     else s3)
               else s3)
     in s4 @ nl)"

text \<open>
  The loop over the items, returning \<open>context_parts\<close> and \<open>current_length\<close>; it ends at
  the first item that does not fit.
\<close>

fun add_items ::
  "(real \<Rightarrow> string) \<Rightarrow> int \<Rightarrow> nat \<Rightarrow> ContextItem list \<Rightarrow> string list \<Rightarrow> int
     \<Rightarrow> string list \<times> int" where
  "add_items fmt2f max_context_length i [] context_parts current_length =
     (context_parts, current_length)"
| "add_items fmt2f max_context_length i (item # items) context_parts current_length =
     (let s = item_summary fmt2f max_context_length current_length i item
      in if current_length + int (length s) > max_context_length
         then (context_parts, current_length)
         else add_items fmt2f max_context_length (Suc i) items (context_parts @ [s])
                (current_length + int (length s)))"

definition context_header :: "string list" where
  "context_header = [''Based on the following relevant information:'', []]"

definition create_context_prompt ::
  "(real \<Rightarrow> string) \<Rightarrow> string \<Rightarrow> ContextItem list \<Rightarrow> int \<Rightarrow> string" where
  "create_context_prompt fmt2f query retrieved_items max_context_length =
    (if retrieved_items = [] then []
     else
       (let context_parts = context_header;
            current_length = int (length (join_nl context_parts));
            context_parts' = fst (add_items fmt2f max_context_length 1 retrieved_items
                                    context_parts current_length)
        in join_nl (context_parts' @ [''Query: '' @ query, []])))"


section \<open>Notions the properties are stated with\<close>

subsection \<open>Records of the store\<close>

text \<open>
  Slot \<open>f\<close> holds a non-deleted record of item \<open>iid\<close>.
\<close>

definition active_record :: "VectorStore \<Rightarrow> nat \<Rightarrow> string \<Rightarrow> bool" where
  "active_record st f iid =
    (case map_of (metadata st) f of
       Some m \<Rightarrow> \<not> deleted m \<and> item_id m = Some iid
     | None \<Rightarrow> False)"

text \<open>Every non-deleted record's item id maps to the record's own slot.\<close>

definition store_inv :: "VectorStore \<Rightarrow> bool" where
  "store_inv st = (\<forall>f iid. active_record st f iid \<longrightarrow> id_to_faiss st iid = Some f)"

text \<open>No two non-deleted records share an item id.\<close>

definition unique_active :: "VectorStore \<Rightarrow> bool" where
  "unique_active st =
    (\<forall>f g iid. active_record st f iid \<and> active_record st g iid \<longrightarrow> f = g)"

subsection \<open>Candidates of a search\<close>

text \<open>
  A candidate passes the two tests of the loop of \<open>search\<close>: not below the threshold,
  and a record that is not deleted.
\<close>

definition qualifies :: "(nat \<rightharpoonup> Metadata) \<Rightarrow> real \<Rightarrow> real \<times> nat \<Rightarrow> bool" where
  "qualifies md min_similarity c =
    (\<not> fst c < min_similarity \<and> (case md (snd c) of Some m \<Rightarrow> \<not> deleted m | None \<Rightarrow> False))"

definition to_result :: "(nat \<rightharpoonup> Metadata) \<Rightarrow> real \<times> nat \<Rightarrow> SearchResult" where
  "to_result md c = \<lparr>result_metadata = the (md (snd c)), result_similarity = fst c\<rparr>"

text \<open>
  The rows of non-deleted records with a similarity to the query at or above the
  threshold, among all rows of the index: what the index returns for the query when it
  is asked for every row, without those that fail the two tests.
\<close>

definition active_matches :: "numerics \<Rightarrow> VectorStore \<Rightarrow> vector \<Rightarrow> real \<Rightarrow> (real \<times> nat) list" where
  "active_matches nu st query_embedding min_similarity =
    filter (qualifies (map_of (metadata st)) min_similarity)
      (faiss_search nu (index st) (normalize_row nu query_embedding) (length (index st)))"


section \<open>Example inputs\<close>

definition meta_of :: "string \<Rightarrow> Metadata" where
  "meta_of iid = \<lparr>item_id = Some iid, deleted = False, source_id = None, other_fields = []\<rparr>"

text \<open>Two orthogonal unit vectors.\<close>

definition two_store :: VectorStore where
  "two_store =
    snd (add_embeddings exact_numerics (create_new_index 2) [[1, 0], [0, 1]]
           [meta_of ''a'', meta_of ''b''])"

text \<open>
  Three rows of similarity 1, 1/2 and 0 to the query \<open>[1, 0, 0, 0]\<close>, the two nearest
  removed afterwards.
\<close>

definition crowded_store :: VectorStore where
  "crowded_store =
    remove_embedding
      (remove_embedding
         (snd (add_embeddings exact_numerics (create_new_index 4)
                 [[1, 0, 0, 0], [1, 1, 1, 1], [0, 1, 0, 0]]
                 [meta_of ''a'', meta_of ''b'', meta_of ''c'']))
         ''a'')
      ''b''"

text \<open>
  A model that loads and has a row for every text: \<open>[1, 0]\<close> for the text of the item
  titled \<open>first\<close>, \<open>[0, 1]\<close> for any other.
\<close>

definition example_embedding_env :: embedding_env where
  "example_embedding_env =
    \<lparr> model_loads = True,
      embedding_dim = 2,
      model_encode = (\<lambda>t. Some (if t = ''Title: first'' then [1, 0] else [0, 1])),
      sha256_16 = (\<lambda>t. ''0000000000000000''),
      created_now = ''2024-01-01T00:00:00'',
      date_isoformat = str_nat \<rparr>"

text \<open>Two items of one feed with the same URL, so with the same id.\<close>

definition example_item :: "string \<Rightarrow> SourceItem" where
  "example_item t =
    \<lparr> src_id = ''a'', src_title = t, src_url = ''http://feed/a'', src_published_at = 0,
      src_summary = None, src_content = None, src_author = None, src_tags = [],
      src_source_id = None \<rparr>"

text \<open>A batch with both of them, indexed into an empty store.\<close>

definition duplicate_store :: VectorStore where
  "duplicate_store =
    snd (index_items exact_numerics example_embedding_env (create_new_index 2)
           [example_item ''first'', example_item ''second''])"

text \<open>A tokenizer of 100 tokens per character, no configuration, no provider.\<close>

definition example_env :: truncator_env where
  "example_env =
    \<lparr> config = None,
      get_encoding = Some (\<lambda>s. Some (100 * length s)),
      adapter_chat = (\<lambda>p. None),
      strftime = (\<lambda>t. Some (str_nat t)),
      now_id = 99,
      now_timestamp = 100,
      isoformat = str_nat \<rparr>"

definition example_message :: "nat \<Rightarrow> string \<Rightarrow> ChatMessage" where
  "example_message t c =
    \<lparr> msg_id = str_nat t, role = USER, content = c, timestamp = t,
      provider = None, model = None, usage = None, msg_metadata = [] \<rparr>"


definition ten_messages :: "string \<Rightarrow> ChatMessage list" where
  "ten_messages c = map (\<lambda>t. example_message t c) [0, 1, 2, 3, 4, 5, 6, 7, 8, 9]"

text \<open>The same tokenizer, an active model of limit 4096, a provider whose calls fail.\<close>

definition provider_down_env :: truncator_env where
  "provider_down_env =
    \<lparr> config = Some \<lparr> active_provider = Some ''openai'', active_model = Some ''gpt-3.5-turbo'' \<rparr>,
      get_encoding = Some (\<lambda>s. Some (100 * length s)),
      adapter_chat = (\<lambda>p. None),
      strftime = (\<lambda>t. Some (str_nat t)),
      now_id = 99,
      now_timestamp = 100,
      isoformat = str_nat \<rparr>"

text \<open>The failing provider, and \<open>strftime\<close> failing as well.\<close>

definition clock_down_env :: truncator_env where
  "clock_down_env = provider_down_env\<lparr>strftime := (\<lambda>t. None)\<rparr>"

text \<open>No tokenizer at all.\<close>

definition tokenizer_down_env :: truncator_env where
  "tokenizer_down_env = example_env\<lparr>get_encoding := None\<rparr>"


text \<open>
  A stand-in for \<open>f"{x:.2f}"\<close> on numbers from 0 up: two decimals, cut off.
\<close>

definition example_fmt2f :: "real \<Rightarrow> string" where
  "example_fmt2f x =
    str_nat (nat \<lfloor>x\<rfloor>) @ ''.''
      @ [digit_char (nat \<lfloor>x * 100\<rfloor> mod 100 div 10), digit_char (nat \<lfloor>x * 100\<rfloor> mod 10)]"

definition plain_item :: ContextItem where
  "plain_item =
    \<lparr>similarity = Some (1 / 2), title = None, url = None, author = None,
      item_content = None, summary = None\<rparr>"

definition titled_item :: ContextItem where
  "titled_item = plain_item\<lparr>title := Some ''A title of forty characters, all in all.''\<rparr>"


section \<open>Properties of the truncator\<close>

lemma str_nat_digit: "n < 10 \<Longrightarrow> str_nat n = [digit_char n]"
  by (subst str_nat.simps) simp

lemma count_loop_sum:
  "(\<forall>m \<in> set ms. enc (content m) \<noteq> None) \<Longrightarrow>
   count_loop enc ms t = Some (t + sum_list (map (\<lambda>m. int (the (enc (content m))) + 4) ms))"
  by (induction ms arbitrary: t) auto

lemma count_conversation_tokens_sum:
  assumes "get_encoding env = Some enc"
    and "\<forall>m \<in> set messages. enc (content m) \<noteq> None"
    and "enc new_message_content \<noteq> None"
  shows "count_conversation_tokens env messages new_message_content =
           sum_list (map (\<lambda>m. int (the (enc (content m))) + 4) messages)
           + (if new_message_content \<noteq> [] then int (the (enc new_message_content)) + 4 else 0)"
  using assms count_loop_sum [of messages enc 0]
  by (auto simp: count_conversation_tokens_def count_with_tokenizer_def)

text \<open>
  C1. A message list whose token count, as \<open>_count_conversation_tokens\<close> computes it
  (tokens of every content plus 4 per message, plus the new content and its 4), is at
  most the available tokens (limit minus the two reserves) comes back unchanged.
\<close>

theorem truncate_if_needed_under_budget:
  assumes "count_conversation_tokens env messages new_message_content \<le> available_tokens env"
  shows "truncate_if_needed env messages new_message_content = messages"
  using assms by (simp add: truncate_if_needed_def available_tokens_def Let_def)

theorem truncate_if_needed_under_budget_witness:
  "count_conversation_tokens example_env [example_message 1 ''hello''] ''hi''
     \<le> available_tokens example_env
   \<and> truncate_if_needed example_env [example_message 1 ''hello''] ''hi''
     = [example_message 1 ''hello'']"
proof -
  have h: "count_conversation_tokens example_env [example_message 1 ''hello''] ''hi''
             \<le> available_tokens example_env"
    by (simp add: count_conversation_tokens_def count_with_tokenizer_def example_env_def
        example_message_def available_tokens_def get_token_limit_def default_limit_def
        response_reserve_def system_reserve_def)
  from truncate_if_needed_under_budget [OF h] h show ?thesis by simp
qed

lemma recent_loop_returns:
  "\<forall>m \<in> set xs. enc (content m) \<noteq> None \<Longrightarrow> \<exists>r. recent_loop enc target xs acc toks = Inr r"
  by (induction xs arbitrary: acc toks) (auto simp: Let_def)

lemma recent_loop_suffix:
  "recent_loop enc target xs acc toks = Inr recent \<Longrightarrow>
   \<exists>k \<le> length xs. recent = rev (take k xs) @ acc"
proof (induction xs arbitrary: acc toks)
  case Nil
  then show ?case by simp
next
  case (Cons x xs)
  show ?case
  proof (cases "enc (content x)")
    case None
    with Cons.prems show ?thesis by simp
  next
    case (Some n)
    show ?thesis
    proof (cases "within_recent_budget (toks + (int n + 4)) target")
      case True
      with Some Cons.prems
      have "recent_loop enc target xs (x # acc) (toks + (int n + 4)) = Inr recent"
        by (simp add: Let_def)
      from Cons.IH [OF this] obtain k where "k \<le> length xs" "recent = rev (take k xs) @ x # acc"
        by blast
      then have "Suc k \<le> length (x # xs) \<and> recent = rev (take (Suc k) (x # xs)) @ acc"
        by simp
      then show ?thesis by blast
    next
      case False
      with Some Cons.prems have "recent = acc" by (simp add: Let_def)
      then have "0 \<le> length (x # xs) \<and> recent = rev (take 0 (x # xs)) @ acc" by simp
      then show ?thesis by blast
    qed
  qed
qed

lemma recent_loop_budget:
  "recent_loop enc target xs acc toks = Inr recent \<Longrightarrow>
   toks = sum_list (map (message_tokens enc) acc) \<Longrightarrow>
   acc = [] \<or> within_recent_budget toks target \<Longrightarrow>
   recent = [] \<or> within_recent_budget (sum_list (map (message_tokens enc) recent)) target"
proof (induction xs arbitrary: acc toks)
  case Nil
  then show ?case by auto
next
  case (Cons x xs)
  show ?case
  proof (cases "enc (content x)")
    case None
    with Cons.prems show ?thesis by simp
  next
    case (Some n)
    show ?thesis
    proof (cases "within_recent_budget (toks + (int n + 4)) target")
      case True
      with Some Cons.prems(1)
      have run: "recent_loop enc target xs (x # acc) (toks + (int n + 4)) = Inr recent"
        by (simp add: Let_def)
      have sum: "toks + (int n + 4) = sum_list (map (message_tokens enc) (x # acc))"
        using Cons.prems(2) Some unfolding message_tokens_def by simp
      from Cons.IH [OF run sum] True show ?thesis by simp
    next
      case False
      with Some Cons.prems(1) have "recent = acc" by (simp add: Let_def)
      with Cons.prems(2,3) show ?thesis by auto
    qed
  qed
qed

lemma tokens_lower_bound:
  "\<forall>m \<in> set ms. b \<le> message_tokens enc m \<Longrightarrow>
   b * int (length ms) \<le> sum_list (map (message_tokens enc) ms)"
  by (induction ms) (auto simp: algebra_simps)

text \<open>
  C5 (amended). Ten messages of about 200 tokens each (180 or more) and a budget of
  about 500 (550 or less): fewer than four of them fit into 70% of the budget, so
  \<open>_truncate_conversation\<close> returns exactly the last four messages, without a
  summary message, and their tokens exceed 70% of the budget.
\<close>

theorem truncate_conversation_floor_fallback:
  assumes enc: "get_encoding env = Some enc"
    and len: "length messages = 10"
    and toks: "\<forall>m \<in> set messages. \<exists>n. enc (content m) = Some n \<and> 180 \<le> n"
    and target: "target_tokens \<le> 550"
  shows "truncate_conversation env messages target_tokens = Inr (drop 6 messages)
         \<and> \<not> within_recent_budget (sum_list (map (message_tokens enc) (drop 6 messages))) target_tokens"
proof -
  have big: "\<forall>m \<in> set messages. 184 \<le> message_tokens enc m"
    using toks by (fastforce simp: message_tokens_def)
  have "\<forall>m \<in> set (rev messages). enc (content m) \<noteq> None"
    using toks by fastforce
  from recent_loop_returns [OF this]
  obtain recent where run: "recent_loop enc target_tokens (rev messages) [] 0 = Inr recent"
    by blast
  from recent_loop_suffix [OF run] obtain k where "recent = rev (take k (rev messages))"
    by auto
  then have sub: "set recent \<subseteq> set messages"
    by (auto dest: in_set_takeD)
  have short: "length recent < 4"
  proof (rule ccontr)
    assume "\<not> length recent < 4"
    then have l4: "4 \<le> int (length recent)" and ne: "recent \<noteq> []" by auto
    from recent_loop_budget [OF run] ne
    have "within_recent_budget (sum_list (map (message_tokens enc) recent)) target_tokens"
      by simp
    moreover have "184 * int (length recent) \<le> sum_list (map (message_tokens enc) recent)"
      using big sub by (intro tokens_lower_bound) auto
    ultimately show False using l4 target by (simp add: within_recent_budget_def)
  qed
  have first: "truncate_conversation env messages target_tokens = Inr (drop 6 messages)"
    using enc len run short
    by (auto simp: truncate_conversation_def min_keep_messages_def)
  have "\<forall>m \<in> set (drop 6 messages). 184 \<le> message_tokens enc m"
    using big by (auto dest: in_set_dropD)
  from tokens_lower_bound [OF this] len
  have "736 \<le> sum_list (map (message_tokens enc) (drop 6 messages))" by simp
  with target have "\<not> within_recent_budget (sum_list (map (message_tokens enc) (drop 6 messages))) target_tokens"
    by (simp add: within_recent_budget_def)
  with first show ?thesis by simp
qed

lemmas trunc_eval =
  truncate_if_needed_def get_token_limit_def provider_limits_def default_limit_def
  response_reserve_def system_reserve_def count_conversation_tokens_def count_with_tokenizer_def
  char_estimate_def truncate_conversation_def min_keep_messages_def within_recent_budget_def
  create_conversation_summary_def generate_summary_def placeholder_summary_def
  example_message_def ten_messages_def message_tokens_def available_tokens_def

text \<open>The scenario of C5 itself: ten messages of 200 tokens, a budget of 500.\<close>

theorem truncate_conversation_floor_fallback_witness:
  "truncate_conversation example_env (ten_messages ''ab'') 500 = Inr (drop 6 (ten_messages ''ab''))
   \<and> \<not> within_recent_budget
         (sum_list (map (message_tokens (\<lambda>s. Some (100 * length s))) (drop 6 (ten_messages ''ab'')))) 500"
proof -
  have a: "get_encoding example_env = Some (\<lambda>s. Some (100 * length s))"
    by (simp add: example_env_def)
  have b: "length (ten_messages ''ab'') = 10"
    by (simp add: ten_messages_def)
  have c: "\<forall>m \<in> set (ten_messages ''ab''). \<exists>n. (\<lambda>s. Some (100 * length s)) (content m) = Some n \<and> 180 \<le> n"
    by (simp add: ten_messages_def example_message_def)
  have d: "(500::int) \<le> 550" by simp
  from truncate_conversation_floor_fallback [OF a b c d] show ?thesis .
qed

text \<open>
  C5 as stated fails there: the result is not a summary followed by the last four
  messages, and those four do not fit into 70% of the budget.
\<close>

theorem truncate_conversation_scenario_counterexample:
  "\<not> (\<exists>summary. truncate_conversation example_env (ten_messages ''ab'') 500
                     = Inr (summary # drop 6 (ten_messages ''ab''))
          \<and> within_recent_budget
               (sum_list (map (message_tokens (\<lambda>s. Some (100 * length s))) (drop 6 (ten_messages ''ab'')))) 500)"
  by (simp add: trunc_eval example_env_def)

lemma count_without_tokenizer:
  "count_with_tokenizer env messages new_message_content = None \<Longrightarrow>
   count_conversation_tokens env messages new_message_content = char_estimate messages new_message_content"
  by (simp add: count_conversation_tokens_def)

lemma truncate_conversation_no_tokenizer:
  "get_encoding env = None \<Longrightarrow>
   truncate_conversation env messages target = Inr messages \<or>
   truncate_conversation env messages target = Inl TokenizerError"
  by (simp add: truncate_conversation_def)

lemma recent_loop_drop:
  assumes "recent_loop enc target (rev messages) [] 0 = Inr recent"
  shows "recent = drop (length messages - length recent) messages"
proof -
  from recent_loop_suffix [OF assms] obtain k
    where k: "k \<le> length messages" and r: "recent = rev (take k (rev messages))"
    by auto
  from r have "recent = drop (length messages - k) messages"
    by (simp add: rev_take)
  moreover from r k have "length recent = k" by simp
  ultimately show ?thesis by simp
qed

lemma create_conversation_summary_provider_down:
  "\<forall>p. adapter_chat env p = None \<Longrightarrow> older \<noteq> [] \<Longrightarrow>
   create_conversation_summary env older =
     map_option (\<lambda>c. summary_message env c (length older)) (placeholder_summary env older)"
  by (simp add: create_conversation_summary_def generate_summary_def split: option.splits)

lemma truncate_if_needed_provider_down:
  assumes down: "\<forall>p. adapter_chat env p = None"
    and over: "available_tokens env < count_conversation_tokens env messages new_message_content"
    and enc: "get_encoding env = Some enc"
    and run: "recent_loop enc (available_tokens env) (rev messages) [] 0 = Inr recent"
    and floor: "4 \<le> length recent" and some: "length recent < length messages"
  shows "truncate_if_needed env messages new_message_content =
          (case placeholder_summary env (take (length messages - length recent) messages) of
             Some c \<Rightarrow>
               summary_message env c (length messages - length recent)
                 # drop (length messages - length recent) messages
           | None \<Rightarrow> drop (length messages - length recent) messages)"
proof -
  let ?n = "length messages - length recent"
  let ?older = "take ?n messages"
  have older: "?older \<noteq> []" and len: "length ?older = ?n"
    using some by auto
  have recent: "recent = drop ?n messages"
    using run by (rule recent_loop_drop)
  have "truncate_conversation env messages (available_tokens env) =
          (case create_conversation_summary env ?older of
             Some s \<Rightarrow> Inr (s # recent) | None \<Rightarrow> Inr recent)"
    using enc run floor some older
    by (auto simp: truncate_conversation_def min_keep_messages_def Let_def)
  also have "create_conversation_summary env ?older =
      map_option (\<lambda>c. summary_message env c ?n) (placeholder_summary env ?older)"
    using create_conversation_summary_provider_down [OF down older] len by simp
  finally have "truncate_conversation env messages (available_tokens env) =
      (case placeholder_summary env ?older of
         Some c \<Rightarrow> Inr (summary_message env c ?n # recent) | None \<Rightarrow> Inr recent)"
    by (simp split: option.splits)
  with over recent show ?thesis
    by (auto simp: truncate_if_needed_def Let_def available_tokens_def split: option.splits)
qed

text \<open>
  C6 (amended). \<open>truncate_if_needed\<close> returns a message list on every input. Without
  a tokenizer the count is the character estimate and the result is the input; whenever
  the tokenizer fails on a text the count is the character estimate; whenever the
  truncation raises, the result is the input. A failing provider does not give the
  input back: when the conversation is over the budget and four or more recent
  messages fit, but not all, the result is the placeholder summary of the older
  messages followed by the recent ones verbatim, or the recent ones alone when the
  placeholder cannot be written; with two or more older messages it differs from the
  input.
\<close>

theorem truncate_if_needed_failures:
  "(get_encoding env = None \<longrightarrow>
      count_conversation_tokens env messages new_message_content
        = char_estimate messages new_message_content
      \<and> truncate_if_needed env messages new_message_content = messages)
   \<and> (count_with_tokenizer env messages new_message_content = None \<longrightarrow>
      count_conversation_tokens env messages new_message_content
        = char_estimate messages new_message_content)
   \<and> (truncate_conversation env messages (available_tokens env) = Inl e \<longrightarrow>
      truncate_if_needed env messages new_message_content = messages)
   \<and> ((\<forall>p. adapter_chat env p = None)
        \<and> available_tokens env < count_conversation_tokens env messages new_message_content
        \<and> get_encoding env = Some enc
        \<and> recent_loop enc (available_tokens env) (rev messages) [] 0 = Inr recent
        \<and> 4 \<le> length recent \<and> length recent < length messages \<longrightarrow>
      truncate_if_needed env messages new_message_content =
        (case placeholder_summary env (take (length messages - length recent) messages) of
           Some c \<Rightarrow>
             summary_message env c (length messages - length recent)
               # drop (length messages - length recent) messages
         | None \<Rightarrow> drop (length messages - length recent) messages)
      \<and> (length recent + 1 < length messages \<longrightarrow>
           truncate_if_needed env messages new_message_content \<noteq> messages))"
proof (intro conjI impI)
  assume none: "get_encoding env = None"
  then show "count_conversation_tokens env messages new_message_content
        = char_estimate messages new_message_content"
    by (simp add: count_conversation_tokens_def count_with_tokenizer_def)
  from truncate_conversation_no_tokenizer [OF none, of messages "available_tokens env"]
  show "truncate_if_needed env messages new_message_content = messages"
    by (auto simp: truncate_if_needed_def Let_def available_tokens_def split: sum.splits)
next
  assume "count_with_tokenizer env messages new_message_content = None"
  then show "count_conversation_tokens env messages new_message_content
        = char_estimate messages new_message_content"
    by (rule count_without_tokenizer)
next
  assume "truncate_conversation env messages (available_tokens env) = Inl e"
  then show "truncate_if_needed env messages new_message_content = messages"
    by (simp add: truncate_if_needed_def Let_def available_tokens_def)
next
  assume a: "(\<forall>p. adapter_chat env p = None)
        \<and> available_tokens env < count_conversation_tokens env messages new_message_content
        \<and> get_encoding env = Some enc
        \<and> recent_loop enc (available_tokens env) (rev messages) [] 0 = Inr recent
        \<and> 4 \<le> length recent \<and> length recent < length messages"
  then show eq: "truncate_if_needed env messages new_message_content =
        (case placeholder_summary env (take (length messages - length recent) messages) of
           Some c \<Rightarrow>
             summary_message env c (length messages - length recent)
               # drop (length messages - length recent) messages
         | None \<Rightarrow> drop (length messages - length recent) messages)"
    by (intro truncate_if_needed_provider_down) auto
  assume b: "length recent + 1 < length messages"
  have "length (truncate_if_needed env messages new_message_content) \<le> length recent + 1"
    unfolding eq using a by (auto split: option.splits)
  with b show "truncate_if_needed env messages new_message_content \<noteq> messages"
    by auto
qed

text \<open>
  C6 as stated fails for a failing provider: ten messages of 400 tokens, the limit
  4096. The result is a placeholder summary and the last four messages, not the input.
\<close>

theorem truncate_if_needed_provider_failure_counterexample:
  "(\<forall>p. adapter_chat provider_down_env p = None)
   \<and> truncate_if_needed provider_down_env (ten_messages ''abcd'') ''hi''
       = summary_message provider_down_env
           ''[Conversation summary: 6 earlier messages from 0 to 5]'' 6
         # drop 6 (ten_messages ''abcd'')
   \<and> truncate_if_needed provider_down_env (ten_messages ''abcd'') ''hi'' \<noteq> ten_messages ''abcd''"
  by (simp add: trunc_eval provider_down_env_def summary_message_def str_nat_digit digit_char_def)

theorem truncate_if_needed_failures_witness:
  "get_encoding tokenizer_down_env = None
   \<and> count_conversation_tokens tokenizer_down_env (ten_messages ''abcd'') ''hi'' = 10
   \<and> truncate_if_needed tokenizer_down_env (ten_messages ''abcd'') ''hi'' = ten_messages ''abcd''
   \<and> truncate_if_needed provider_down_env (ten_messages ''abcd'') ''hi''
       = summary_message provider_down_env
           ''[Conversation summary: 6 earlier messages from 0 to 5]'' 6
         # drop 6 (ten_messages ''abcd'')
   \<and> truncate_if_needed provider_down_env (ten_messages ''abcd'') ''hi'' \<noteq> ten_messages ''abcd''
   \<and> truncate_if_needed clock_down_env (ten_messages ''abcd'') ''hi'' = drop 6 (ten_messages ''abcd'')"
proof -
  define msgs where "msgs = ten_messages ''abcd''"
  define recent where "recent = drop 6 msgs"
  let ?enc = "\<lambda>s::string. Some (100 * length s)"
  have len: "length msgs = 10" "length recent = 4"
    by (simp_all add: msgs_def recent_def ten_messages_def)
  have a: "get_encoding tokenizer_down_env = None"
    by (simp add: tokenizer_down_env_def)
  have b: "char_estimate msgs ''hi'' = 10"
    by (simp add: msgs_def char_estimate_def ten_messages_def example_message_def)
  from truncate_if_needed_failures [of tokenizer_down_env msgs "''hi''"] a b
  have c: "count_conversation_tokens tokenizer_down_env msgs ''hi'' = 10
     \<and> truncate_if_needed tokenizer_down_env msgs ''hi'' = msgs"
    by simp
  have avail: "available_tokens provider_down_env = 2596" "available_tokens clock_down_env = 2596"
    by (simp_all add: trunc_eval provider_down_env_def clock_down_env_def)
  have count: "count_conversation_tokens provider_down_env msgs ''hi'' = 4244"
     "count_conversation_tokens clock_down_env msgs ''hi'' = 4244"
    by (simp_all add: msgs_def trunc_eval provider_down_env_def clock_down_env_def)
  have run: "recent_loop ?enc 2596 (rev msgs) [] 0 = Inr recent"
    by (simp add: msgs_def recent_def ten_messages_def example_message_def within_recent_budget_def)
  have hyp: "(\<forall>p. adapter_chat provider_down_env p = None)
        \<and> available_tokens provider_down_env < count_conversation_tokens provider_down_env msgs ''hi''
        \<and> get_encoding provider_down_env = Some ?enc
        \<and> recent_loop ?enc (available_tokens provider_down_env) (rev msgs) [] 0 = Inr recent
        \<and> 4 \<le> length recent \<and> length recent < length msgs"
    using run by (simp add: avail count len) (simp add: provider_down_env_def)
  have hyp': "(\<forall>p. adapter_chat clock_down_env p = None)
        \<and> available_tokens clock_down_env < count_conversation_tokens clock_down_env msgs ''hi''
        \<and> get_encoding clock_down_env = Some ?enc
        \<and> recent_loop ?enc (available_tokens clock_down_env) (rev msgs) [] 0 = Inr recent
        \<and> 4 \<le> length recent \<and> length recent < length msgs"
    using run by (simp add: avail count len) (simp add: clock_down_env_def provider_down_env_def)
  have ph: "placeholder_summary provider_down_env (take 6 msgs)
                = Some ''[Conversation summary: 6 earlier messages from 0 to 5]''"
    by (simp add: msgs_def placeholder_summary_def provider_down_env_def ten_messages_def
        example_message_def str_nat_digit digit_char_def)
  have ph': "placeholder_summary clock_down_env (take 6 msgs) = None"
    by (simp add: msgs_def placeholder_summary_def clock_down_env_def ten_messages_def)
  from truncate_if_needed_failures [of provider_down_env msgs "''hi''" _ ?enc recent] hyp
  have d: "truncate_if_needed provider_down_env msgs ''hi'' =
        (case placeholder_summary provider_down_env (take (length msgs - length recent) msgs) of
           Some c \<Rightarrow>
             summary_message provider_down_env c (length msgs - length recent)
               # drop (length msgs - length recent) msgs
         | None \<Rightarrow> drop (length msgs - length recent) msgs)
      \<and> (length recent + 1 < length msgs \<longrightarrow>
           truncate_if_needed provider_down_env msgs ''hi'' \<noteq> msgs)"
    by blast
  have lt: "length recent + 1 < length msgs" by (simp add: len)
  from d lt have d2: "truncate_if_needed provider_down_env msgs ''hi'' \<noteq> msgs"
    by blast
  from d have "truncate_if_needed provider_down_env msgs ''hi'' =
        (case placeholder_summary provider_down_env (take (length msgs - length recent) msgs) of
           Some c \<Rightarrow>
             summary_message provider_down_env c (length msgs - length recent)
               # drop (length msgs - length recent) msgs
         | None \<Rightarrow> drop (length msgs - length recent) msgs)"
    by blast
  then have d1: "truncate_if_needed provider_down_env msgs ''hi''
       = summary_message provider_down_env
           ''[Conversation summary: 6 earlier messages from 0 to 5]'' 6 # drop 6 msgs"
    unfolding len by (simp add: ph)
  from truncate_if_needed_failures [of clock_down_env msgs "''hi''" _ ?enc recent] hyp'
  have "truncate_if_needed clock_down_env msgs ''hi'' =
        (case placeholder_summary clock_down_env (take (length msgs - length recent) msgs) of
           Some c \<Rightarrow>
             summary_message clock_down_env c (length msgs - length recent)
               # drop (length msgs - length recent) msgs
         | None \<Rightarrow> drop (length msgs - length recent) msgs)"
    by blast
  then have e: "truncate_if_needed clock_down_env msgs ''hi'' = drop 6 msgs"
    unfolding len by (simp add: ph')
  from a c d1 d2 e show ?thesis unfolding msgs_def by blast
qed


section \<open>Properties of the vector store\<close>

subsection \<open>What a search returns\<close>

lemma search_loop_take:
  "int (length results) < k \<Longrightarrow>
   search_loop md k ms cands results =
     results @ take (nat k - length results) (map (to_result md) (filter (qualifies md ms) cands))"
proof (induction cands arbitrary: results)
  case Nil
  then show ?case by simp
next
  case (Cons c cands)
  obtain sim fid where c: "c = (sim, fid)" by (cases c)
  show ?case
  proof (cases "qualifies md ms c")
    case False
    then have "search_loop md k ms (c # cands) results = search_loop md k ms cands results"
      using Cons.prems by (auto simp: c qualifies_def split: option.splits)
    with False Cons.IH [OF Cons.prems] show ?thesis by simp
  next
    case True
    then obtain m where m: "md fid = Some m" "\<not> deleted m" "\<not> sim < ms"
      by (auto simp: c qualifies_def split: option.splits)
    let ?r = "\<lparr>result_metadata = m, result_similarity = sim\<rparr>"
    have r: "to_result md c = ?r" by (simp add: to_result_def c m)
    from Cons.prems obtain n where n: "nat k - length results = Suc n"
      by (cases "nat k - length results") auto
    show ?thesis
    proof (cases "int (length (results @ [?r])) \<ge> k")
      case full: True
      then have "n = 0" using n by auto
      moreover have "search_loop md k ms (c # cands) results = results @ [?r]"
        using full m by (simp add: c Let_def)
      ultimately show ?thesis using True r n by simp
    next
      case more: False
      then have lt: "int (length (results @ [?r])) < k" by simp
      have "search_loop md k ms (c # cands) results = search_loop md k ms cands (results @ [?r])"
        using more m by (simp add: c Let_def)
      also have "\<dots> = (results @ [?r]) @ take (nat k - length (results @ [?r]))
                          (map (to_result md) (filter (qualifies md ms) cands))"
        by (rule Cons.IH [OF lt])
      also have "nat k - length (results @ [?r]) = n" using n by simp
      finally show ?thesis using True r n by simp
    qed
  qed
qed

lemma raw_candidates_positive:
  "raw_candidates nu st q k = Some cands \<Longrightarrow> 0 < k \<and> index st \<noteq> []"
  by (auto simp: raw_candidates_def Let_def split: if_splits)

lemma search_take:
  "raw_candidates nu st q k = Some cands \<Longrightarrow>
   search nu st q k ms =
     take (nat k) (map (to_result (map_of (metadata st))) (filter (qualifies (map_of (metadata st)) ms) cands))"
  using raw_candidates_positive [of nu st q k cands]
  by (simp add: search_def search_loop_take)

lemma search_results:
  assumes "r \<in> set (search nu st q k ms)"
  shows "\<exists>sim fid m. map_of (metadata st) fid = Some m \<and> \<not> deleted m \<and> \<not> sim < ms
           \<and> r = \<lparr>result_metadata = m, result_similarity = sim\<rparr>"
proof (cases "raw_candidates nu st q k")
  case None
  with assms show ?thesis by (simp add: search_def split: if_splits)
next
  case (Some cands)
  from assms search_take [OF Some]
  have "r \<in> set (map (to_result (map_of (metadata st))) (filter (qualifies (map_of (metadata st)) ms) cands))"
    by (auto dest: in_set_takeD)
  then obtain c where "qualifies (map_of (metadata st)) ms c" "r = to_result (map_of (metadata st)) c"
    by auto
  then show ?thesis
    by (cases c) (auto simp: qualifies_def to_result_def split: option.splits)
qed

subsection \<open>Removal\<close>

lemmas store_eval =
  add_embeddings_def normalize_embeddings_def normalize_row_def l2_norm_def save_index_def
  create_new_index_def remove_embedding_def meta_of_def exact_numerics_def Let_def

lemmas search_eval =
  search_def raw_candidates_def index_search_def inner_product_def

lemma remove_embedding_metadata:
  "id_to_faiss st iid = Some f0 \<Longrightarrow>
   map_of (metadata (remove_embedding st iid)) f =
     (if f = f0 then map_option (\<lambda>m. m\<lparr>deleted := True\<rparr>) (map_of (metadata st) f0)
      else map_of (metadata st) f)"
  by (auto simp: remove_embedding_def save_index_def update_conv' split: option.splits)

lemma remove_embedding_id_to_faiss:
  "id_to_faiss (remove_embedding st iid) = (id_to_faiss st)(iid := None)"
  by (auto simp: remove_embedding_def save_index_def split: option.splits)

lemma remove_embedding_index:
  "index (remove_embedding st iid) = index st"
  by (simp add: remove_embedding_def save_index_def split: option.splits)

text \<open>
  Where no non-deleted record carries the item id except the one at the slot the id is
  mapped to, \<open>remove_embedding\<close> takes the item out of every search, whatever the
  query, \<open>k\<close>, the threshold and the numerics. That \<open>get_embedding_metadata\<close> returns
  \<open>None\<close> afterwards and that the total of \<open>get_stats\<close> stays needs no such condition.
\<close>

lemma remove_embedding_excludes:
  assumes present: "id_to_faiss st iid \<noteq> None"
    and only: "\<forall>f. active_record st f iid \<longrightarrow> id_to_faiss st iid = Some f"
  shows "(\<forall>r \<in> set (search nu (remove_embedding st iid) q k ms). item_id (result_metadata r) \<noteq> Some iid)
       \<and> get_embedding_metadata (remove_embedding st iid) iid = None
       \<and> total_embeddings (get_stats (remove_embedding st iid)) = total_embeddings (get_stats st)"
proof (intro conjI ballI)
  fix r
  assume "r \<in> set (search nu (remove_embedding st iid) q k ms)"
  from search_results [OF this]
  obtain fid m where m: "map_of (metadata (remove_embedding st iid)) fid = Some m" "\<not> deleted m"
      and r: "result_metadata r = m"
    by auto
  from present obtain f0 where f0: "id_to_faiss st iid = Some f0" by auto
  from m remove_embedding_metadata [OF f0, of fid]
  have "fid \<noteq> f0" and old: "map_of (metadata st) fid = Some m"
    by (auto split: if_splits)
  show "item_id (result_metadata r) \<noteq> Some iid"
  proof
    assume "item_id (result_metadata r) = Some iid"
    with old m r have "active_record st fid iid" by (simp add: active_record_def)
    with only f0 have "fid = f0" by auto
    with \<open>fid \<noteq> f0\<close> show False by simp
  qed
next
  show "get_embedding_metadata (remove_embedding st iid) iid = None"
    by (simp add: get_embedding_metadata_def remove_embedding_id_to_faiss)
next
  show "total_embeddings (get_stats (remove_embedding st iid)) = total_embeddings (get_stats st)"
    by (simp add: get_stats_def remove_embedding_index)
qed


subsection \<open>The threshold\<close>

lemma filter_nth_split:
  "p < length xs \<Longrightarrow> P (xs ! p) \<Longrightarrow>
   filter P xs = filter P (take p xs) @ xs ! p # filter P (drop (Suc p) xs)"
proof -
  assume p: "p < length xs" and P: "P (xs ! p)"
  have "xs = take p xs @ xs ! p # drop (Suc p) xs"
    using p by (rule id_take_nth_drop)
  then have "filter P xs = filter P (take p xs @ xs ! p # drop (Suc p) xs)"
    by simp
  with P show ?thesis by simp
qed

text \<open>
  C4. The candidates are whatever the index returns, in its order and with its
  similarities. Every result of a search is a candidate that passes the two tests, with
  the candidate's own similarity. A non-deleted candidate whose similarity is at the
  threshold or above is among the results, unless \<open>k\<close> candidates that pass come before
  it (a search returns at most \<open>k\<close>); a candidate strictly below the threshold is not
  among them.
\<close>

theorem search_threshold:
  assumes cands: "raw_candidates nu st q k = Some cands"
    and p: "p < length cands" "cands ! p = (sim, fid)"
    and m: "map_of (metadata st) fid = Some m" "\<not> deleted m"
  shows "(\<forall>r \<in> set (search nu st q k ms).
            \<exists>c \<in> set cands. qualifies (map_of (metadata st)) ms c \<and> r = to_result (map_of (metadata st)) c)
       \<and> (ms \<le> sim \<and> length (filter (qualifies (map_of (metadata st)) ms) (take p cands)) < nat k \<longrightarrow>
            \<lparr>result_metadata = m, result_similarity = sim\<rparr> \<in> set (search nu st q k ms))
       \<and> (sim < ms \<longrightarrow>
            \<lparr>result_metadata = m, result_similarity = sim\<rparr> \<notin> set (search nu st q k ms))"
proof (intro conjI impI ballI)
  fix r
  assume "r \<in> set (search nu st q k ms)"
  with search_take [OF cands, of ms]
  show "\<exists>c \<in> set cands. qualifies (map_of (metadata st)) ms c \<and> r = to_result (map_of (metadata st)) c"
    by (auto dest!: in_set_takeD)
next
  let ?Q = "qualifies (map_of (metadata st)) ms"
  let ?r = "\<lparr>result_metadata = m, result_similarity = sim\<rparr>"
  assume a: "ms \<le> sim \<and> length (filter ?Q (take p cands)) < nat k"
  have q: "?Q (cands ! p)" using a m p by (simp add: qualifies_def)
  have r: "to_result (map_of (metadata st)) (cands ! p) = ?r"
    using m p by (simp add: to_result_def)
  define before where "before = map (to_result (map_of (metadata st))) (filter ?Q (take p cands))"
  define after where "after = map (to_result (map_of (metadata st))) (filter ?Q (drop (Suc p) cands))"
  have split: "map (to_result (map_of (metadata st))) (filter ?Q cands) = before @ ?r # after"
    using filter_nth_split [of p cands ?Q, OF p(1) q] r by (simp add: before_def after_def)
  have "length before < nat k" using a by (simp add: before_def)
  then have "?r \<in> set (take (nat k) (before @ ?r # after))"
    by (simp add: take_Cons' )
  with search_take [OF cands, of ms] split show "?r \<in> set (search nu st q k ms)" by simp
next
  assume low: "sim < ms"
  show "\<lparr>result_metadata = m, result_similarity = sim\<rparr> \<notin> set (search nu st q k ms)"
  proof
    assume "\<lparr>result_metadata = m, result_similarity = sim\<rparr> \<in> set (search nu st q k ms)"
    from search_results [OF this] low show False by auto
  qed
qed


theorem search_threshold_witness:
  "raw_candidates exact_numerics two_store [1, 0] 2 = Some [(1, 0), (0, 1)]
   \<and> map_of (metadata two_store) 1 = Some (meta_of ''b'') \<and> \<not> deleted (meta_of ''b'')
   \<and> \<lparr>result_metadata = meta_of ''b'', result_similarity = 0\<rparr>
        \<in> set (search exact_numerics two_store [1, 0] 2 0)
   \<and> \<lparr>result_metadata = meta_of ''b'', result_similarity = 0\<rparr>
        \<notin> set (search exact_numerics two_store [1, 0] 2 (1 / 2))"
proof -
  have a: "raw_candidates exact_numerics two_store [1, 0] 2 = Some [(1, 0), (0, 1)]"
    by (simp add: two_store_def store_eval search_eval)
  have b: "(1::nat) < length [(1::real, 0::nat), (0, 1)]" "[(1::real, 0::nat), (0, 1)] ! 1 = (0, 1)"
    by simp_all
  have c: "map_of (metadata two_store) 1 = Some (meta_of ''b'')" "\<not> deleted (meta_of ''b'')"
    by (simp_all add: two_store_def store_eval)
  have d: "(0::real) \<le> 0 \<and> length (filter (qualifies (map_of (metadata two_store)) 0)
             (take 1 [(1::real, 0::nat), (0, 1)])) < nat 2"
    by (simp add: two_store_def store_eval qualifies_def)
  have e: "(0::real) < 1 / 2" by simp
  from search_threshold [OF a b c, of 0] d
  have f: "\<lparr>result_metadata = meta_of ''b'', result_similarity = 0\<rparr>
             \<in> set (search exact_numerics two_store [1, 0] 2 0)"
    by blast
  from search_threshold [OF a b c, of "1 / 2"] e
  have g: "\<lparr>result_metadata = meta_of ''b'', result_similarity = 0\<rparr>
             \<notin> set (search exact_numerics two_store [1, 0] 2 (1 / 2))"
    by blast
  from a c f g show ?thesis by simp
qed

subsection \<open>Deleted rows in the candidate window\<close>

text \<open>
  C10. In \<open>crowded_store\<close>, built by one \<open>add_embeddings\<close> and two \<open>remove_embedding\<close>,
  with the query \<open>[1, 0, 0, 0]\<close>, \<open>k = 1\<close> and the threshold 0, one non-deleted
  record is at the threshold, the one of \<open>c\<close> at slot 2, and the search returns nothing:
  the candidates are the \<open>min (2 * k) ntotal = 2\<close> nearest rows, both of them rows of
  deleted records.
\<close>

theorem search_crowded_out:
  "(1::int) \<le> int (length (active_matches exact_numerics crowded_store [1, 0, 0, 0] 0))
   \<and> active_matches exact_numerics crowded_store [1, 0, 0, 0] 0 = [(0, 2)]
   \<and> active_record crowded_store 2 ''c''
   \<and> int (length (search exact_numerics crowded_store [1, 0, 0, 0] 1 0)) < 1
   \<and> raw_candidates exact_numerics crowded_store [1, 0, 0, 0] 1 = Some [(1, 0), (1 / 2, 1)]
   \<and> int (length [(1::real, 0::nat), (1 / 2, 1)])
       = min (1 * 2) (int (total_embeddings (get_stats crowded_store)))
   \<and> map (\<lambda>c. map_option deleted (map_of (metadata crowded_store) (snd c)))
         [(1::real, 0::nat), (1 / 2, 1)] = [Some True, Some True]
   \<and> deleted_embeddings (get_stats crowded_store) = 2"
  by (simp add: crowded_store_def store_eval search_eval active_matches_def qualifies_def
      active_record_def get_stats_def)

subsection \<open>Rejected input\<close>

text \<open>
  C7. When the numbers of vectors and of metadata entries differ, or a vector has not
  the store's dimension, \<open>add_embeddings\<close> raises and the store is what it was:
  mappings, metadata, slot counter, index and files.
\<close>

theorem add_embeddings_rejects:
  assumes "length embeddings \<noteq> length metadata_list
           \<or> (\<exists>v \<in> set embeddings. length v \<noteq> dimension st)"
  shows "add_embeddings nu st embeddings metadata_list =
           (Some (if length embeddings \<noteq> length metadata_list then ValueError else DimensionError), st)"
proof (cases "length embeddings \<noteq> length metadata_list")
  case True
  then show ?thesis by (simp add: add_embeddings_def)
next
  case False
  with assms obtain v where v: "v \<in> set embeddings" "length v \<noteq> dimension st" by auto
  then have "embeddings \<noteq> []" by auto
  with False v show ?thesis by (auto simp: add_embeddings_def)
qed

theorem add_embeddings_rejects_witness:
  "add_embeddings exact_numerics two_store [[1, 0, 0]] [meta_of ''c'']
     = (Some DimensionError, two_store)
   \<and> add_embeddings exact_numerics two_store [[1, 0]] [] = (Some ValueError, two_store)"
proof -
  have a: "length [[1::real, 0, 0]] \<noteq> length [meta_of ''c'']
           \<or> (\<exists>v \<in> set [[1::real, 0, 0]]. length v \<noteq> dimension two_store)"
    by (simp add: two_store_def store_eval)
  have b: "length [[1::real, 0]] \<noteq> length ([] :: Metadata list)
           \<or> (\<exists>v \<in> set [[1::real, 0]]. length v \<noteq> dimension two_store)"
    by simp
  from add_embeddings_rejects [OF a, of exact_numerics]
       add_embeddings_rejects [OF b, of exact_numerics] show ?thesis by simp
qed

subsection \<open>Normalisation\<close>






text \<open>
  Without rounding, a vector of norm other than 0 has norm 1 after normalisation. The
  \<open>float32\<close> operations of the source give that up to rounding only, and not where the
  squares underflow or overflow.
\<close>

lemma sum_squares_scaled:
  "sum_list (map ((\<lambda>x. x * x) \<circ> (\<lambda>x. x / n)) v) = sum_list (map (\<lambda>x. x * x) v) / (n * n)"
  for n :: real
  by (induction v) (simp_all add: add_divide_distrib)

lemma l2_norm_nonneg: "0 \<le> l2_norm v"
proof -
  have "0 \<le> sum_list (map (\<lambda>x. x * x) v)"
    by (induction v) simp_all
  then show ?thesis by (simp add: l2_norm_def)
qed

lemma normalize_row_exact_unit:
  assumes nz: "l2_norm v \<noteq> 0"
  shows "l2_norm (normalize_row exact_numerics v) = 1"
proof -
  from nz l2_norm_nonneg [of v] have pos: "0 < l2_norm v" by simp
  have "l2_norm (normalize_row exact_numerics v)
          = sqrt (sum_list (map (\<lambda>x. x * x) v) / (l2_norm v * l2_norm v))"
    using nz
    by (simp add: normalize_row_def exact_numerics_def l2_norm_def [of "map _ _"]
        sum_squares_scaled Let_def)
  also have "\<dots> = sqrt (sum_list (map (\<lambda>x. x * x) v)) / sqrt (l2_norm v * l2_norm v)"
    by (rule real_sqrt_divide)
  also have "\<dots> = l2_norm v / l2_norm v"
    using pos by (simp add: l2_norm_def [symmetric])
  finally show ?thesis using nz by simp
qed

subsection \<open>The invariant of the mappings\<close>

lemma store_inv_cong:
  "metadata st' = metadata st \<Longrightarrow> id_to_faiss st' = id_to_faiss st \<Longrightarrow> store_inv st' = store_inv st"
  by (simp add: store_inv_def active_record_def)

lemma store_inv_unique:
  assumes "store_inv st"
  shows "unique_active st"
  unfolding unique_active_def
proof (intro allI impI)
  fix f g iid
  assume "active_record st f iid \<and> active_record st g iid"
  with assms have "id_to_faiss st iid = Some f" "id_to_faiss st iid = Some g"
    by (simp_all add: store_inv_def)
  then show "f = g" by simp
qed

lemma store_inv_start: "store_inv (create_new_index d)"
  by (simp add: store_inv_def active_record_def create_new_index_def)

lemma store_inv_step:
  assumes inv: "store_inv st" and fresh: "id_to_faiss st iid = None" and m: "item_id m = Some iid"
  shows "store_inv (st\<lparr>metadata := AList.update f m (metadata st),
                       id_to_faiss := (id_to_faiss st)(iid \<mapsto> f),
                       faiss_to_id := (faiss_to_id st)(f \<mapsto> iid)\<rparr>)"
  unfolding store_inv_def
proof (intro allI impI)
  fix g j
  let ?st' = "st\<lparr>metadata := AList.update f m (metadata st),
                  id_to_faiss := (id_to_faiss st)(iid \<mapsto> f),
                  faiss_to_id := (faiss_to_id st)(f \<mapsto> iid)\<rparr>"
  assume act: "active_record ?st' g j"
  show "id_to_faiss ?st' j = Some g"
  proof (cases "g = f")
    case True
    with act m show ?thesis by (simp add: active_record_def update_conv')
  next
    case False
    with act have "active_record st g j" by (simp add: active_record_def update_conv')
    with inv have old: "id_to_faiss st j = Some g" by (simp add: store_inv_def)
    with fresh have "j \<noteq> iid" by auto
    with old show ?thesis by simp
  qed
qed

lemma store_loop_inv:
  "store_inv st \<Longrightarrow> distinct (map item_id ms) \<Longrightarrow>
   (\<forall>m \<in> set ms. \<forall>iid. item_id m = Some iid \<longrightarrow> id_to_faiss st iid = None) \<Longrightarrow>
   store_inv (snd (store_loop f ms st))"
proof (induction ms arbitrary: f st)
  case Nil
  then show ?case by simp
next
  case (Cons m ms)
  show ?case
  proof (cases "item_id m")
    case None
    with Cons.prems show ?thesis by simp
  next
    case (Some iid)
    let ?st' = "st\<lparr>metadata := AList.update f m (metadata st),
                    id_to_faiss := (id_to_faiss st)(iid \<mapsto> f),
                    faiss_to_id := (faiss_to_id st)(f \<mapsto> iid)\<rparr>"
    from Cons.prems(3) Some have fresh: "id_to_faiss st iid = None" by simp
    have inv': "store_inv ?st'"
      using Cons.prems(1) fresh Some by (rule store_inv_step)
    have dist: "distinct (map item_id ms)" using Cons.prems(2) by simp
    have rest: "\<forall>m' \<in> set ms. \<forall>j. item_id m' = Some j \<longrightarrow> id_to_faiss ?st' j = None"
    proof (intro ballI allI impI)
      fix m' j
      assume m': "m' \<in> set ms" and j: "item_id m' = Some j"
      from Cons.prems(2) Some m' have "item_id m' \<noteq> Some iid" by force
      with j have "j \<noteq> iid" by auto
      moreover from Cons.prems(3) m' j have "id_to_faiss st j = None" by simp
      ultimately show "id_to_faiss ?st' j = None" by simp
    qed
    from Cons.IH [OF inv' dist rest, of "Suc f"] Some show ?thesis by simp
  qed
qed

lemma add_embeddings_inv:
  assumes inv: "store_inv st" and dist: "distinct (map item_id ms)"
    and fresh: "\<forall>m \<in> set ms. \<forall>iid. item_id m = Some iid \<longrightarrow> id_to_faiss st iid = None"
  shows "store_inv (snd (add_embeddings nu st embeddings ms))"
proof -
  let ?st1 = "st\<lparr>index := index st @ normalize_embeddings nu embeddings\<rparr>"
  have inv1: "store_inv ?st1" using inv store_inv_cong [of ?st1 st] by simp
  have fresh1: "\<forall>m \<in> set ms. \<forall>iid. item_id m = Some iid \<longrightarrow> id_to_faiss ?st1 iid = None"
    using fresh by simp
  obtain e st2 where loop: "store_loop (next_faiss_id st) ms ?st1 = (e, st2)"
    by (cases "store_loop (next_faiss_id st) ms ?st1")
  from store_loop_inv [OF inv1 dist fresh1, of "next_faiss_id st"] loop
  have inv2: "store_inv st2" by simp
  let ?st3 = "save_index (st2\<lparr>next_faiss_id := next_faiss_id st2 + length embeddings\<rparr>)"
  have inv3: "store_inv ?st3"
    using inv2 store_inv_cong [of ?st3 st2] by (simp add: save_index_def)
  show ?thesis
    using inv inv2 inv3 loop
    by (auto simp: add_embeddings_def Let_def split: option.splits)
qed

lemma remove_embedding_inv:
  assumes inv: "store_inv st"
  shows "store_inv (remove_embedding st iid)"
proof (cases "id_to_faiss st iid")
  case None
  with inv show ?thesis by (simp add: remove_embedding_def)
next
  case (Some f0)
  show ?thesis
    unfolding store_inv_def
  proof (intro allI impI)
    fix g j
    assume act: "active_record (remove_embedding st iid) g j"
    then have g: "g \<noteq> f0" and old: "active_record st g j"
      using remove_embedding_metadata [OF Some, of g]
      by (auto simp: active_record_def split: if_splits option.splits)
    from inv old have map: "id_to_faiss st j = Some g" by (simp add: store_inv_def)
    with Some g have "j \<noteq> iid" by auto
    with map show "id_to_faiss (remove_embedding st iid) j = Some g"
      by (simp add: remove_embedding_id_to_faiss)
  qed
qed

lemma update_embedding_inv:
  assumes inv: "store_inv st" and m: "item_id m = Some iid"
  shows "store_inv (snd (update_embedding nu st iid embedding m))"
proof -
  let ?st1 = "if id_to_faiss st iid \<noteq> None then remove_embedding st iid else st"
  have inv1: "store_inv ?st1" using inv by (simp add: remove_embedding_inv)
  have fresh: "id_to_faiss ?st1 iid = None"
    by (simp add: remove_embedding_id_to_faiss)
  have "store_inv (snd (add_embeddings nu ?st1 [embedding] [m]))"
    using inv1 fresh m by (intro add_embeddings_inv) auto
  then show ?thesis by (simp add: update_embedding_def Let_def)
qed

subsection \<open>One item id twice in a batch\<close>

lemmas engine_eval =
  index_items_def encode_batch_def clean_text_def strip_def is_space_def combined_text_def
  item_metadata_def create_embedding_metadata_def get_embedding_metadata_def
  example_embedding_env_def example_item_def remove_item_index_def

lemma duplicate_store_eval:
  "fst (index_items exact_numerics example_embedding_env (create_new_index 2)
          [example_item ''first'', example_item ''second'']) = None
   \<and> index duplicate_store = [[1, 0], [0, 1]]
   \<and> map fst (metadata duplicate_store) = [0, 1]
   \<and> map (item_id \<circ> snd) (metadata duplicate_store) = [Some ''a'', Some ''a'']
   \<and> map (deleted \<circ> snd) (metadata duplicate_store) = [False, False]
   \<and> id_to_faiss duplicate_store = [''a'' \<mapsto> 1]
   \<and> dimension duplicate_store = 2"
  by (simp add: duplicate_store_def engine_eval store_eval list_all_iff)

text \<open>
  C2 (the code departs from it). \<open>index_items\<close> skips the ids that the store had before
  the batch and lets a batch with one id twice through. After that batch and
  \<open>remove_item_index\<close>, which is \<open>remove_embedding\<close>, of the id, a search still
  returns a record of the item: the removal marks the slot the id is mapped to, the
  newer one, and the older record stays as it was. \<open>get_embedding_metadata\<close> returns
  \<open>None\<close> and the total is unchanged, as claimed.
\<close>

theorem index_items_duplicate_still_searchable:
  "fst (index_items exact_numerics example_embedding_env (create_new_index 2)
          [example_item ''first'', example_item ''second'']) = None
   \<and> id_to_faiss duplicate_store ''a'' = Some 1
   \<and> map (\<lambda>r. (item_id (result_metadata r), result_similarity r))
         (search exact_numerics (remove_item_index duplicate_store ''a'') [1, 0] 5 (1 / 2))
       = [(Some ''a'', 1)]
   \<and> get_embedding_metadata (remove_item_index duplicate_store ''a'') ''a'' = None
   \<and> total_embeddings (get_stats (remove_item_index duplicate_store ''a''))
       = total_embeddings (get_stats duplicate_store)"
  by (simp add: duplicate_store_def engine_eval store_eval search_eval get_stats_def list_all_iff)

text \<open>
  C3 (the code departs from it). After the same batch two non-deleted records carry the
  item id \<open>a\<close>, at the slots 0 and 1, and the id is mapped to slot 1 alone.
\<close>

theorem index_items_duplicate_records:
  "active_record duplicate_store 0 ''a'' \<and> active_record duplicate_store 1 ''a''
   \<and> id_to_faiss duplicate_store ''a'' = Some 1
   \<and> active_embeddings (get_stats duplicate_store) = 2"
  by (simp add: duplicate_store_def engine_eval store_eval active_record_def get_stats_def list_all_iff)

text \<open>So the store after that batch has neither property of the invariant.\<close>

lemma duplicate_store_not_unique:
  "\<not> unique_active duplicate_store \<and> \<not> store_inv duplicate_store"
proof -
  have a: "active_record duplicate_store 0 ''a''" and b: "active_record duplicate_store 1 ''a''"
    by (simp_all add: duplicate_store_def engine_eval store_eval active_record_def list_all_iff)
  from a b have c: "\<not> unique_active duplicate_store"
    by (auto simp: unique_active_def)
  with store_inv_unique have "\<not> store_inv duplicate_store" by blast
  with c show ?thesis by simp
qed


section \<open>Properties of the context prompt\<close>

lemma join_nl_snoc: "xs \<noteq> [] \<Longrightarrow> join_nl (xs @ [y]) = join_nl xs @ nl @ y"
  by (induction xs rule: join_nl.induct) simp_all

lemma add_items_parts:
  "\<exists>zs. fst (add_items f mx i xs parts cur) = parts @ zs"
proof (induction xs arbitrary: i parts cur)
  case Nil
  show ?case by simp
next
  case (Cons x xs)
  let ?s = "item_summary f mx cur i x"
  from Cons [of "Suc i" "parts @ [?s]" "cur + int (length ?s)"]
  show ?case by (auto simp: Let_def)
qed

lemma add_items_length:
  "length (fst (add_items f mx i xs parts cur)) \<le> length parts + length xs"
proof (induction xs arbitrary: i parts cur)
  case Nil
  show ?case by simp
next
  case (Cons x xs)
  let ?s = "item_summary f mx cur i x"
  from Cons [of "Suc i" "parts @ [?s]" "cur + int (length ?s)"]
  show ?case by (auto simp: Let_def)
qed

lemma add_items_append:
  "add_items f mx i (xs @ zs) parts cur =
     (if length (fst (add_items f mx i xs parts cur)) = length parts + length xs
      then add_items f mx (i + length xs) zs
             (fst (add_items f mx i xs parts cur)) (snd (add_items f mx i xs parts cur))
      else add_items f mx i xs parts cur)"
proof (induction xs arbitrary: i parts cur)
  case Nil
  show ?case by simp
next
  case (Cons x xs)
  let ?s = "item_summary f mx cur i x"
  show ?case
  proof (cases "cur + int (length ?s) > mx")
    case True
    then show ?thesis by (simp add: Let_def)
  next
    case False
    with Cons [of "Suc i" "parts @ [?s]" "cur + int (length ?s)"]
    show ?thesis by (simp add: Let_def)
  qed
qed

text \<open>
  C9 (amended). The prompt is a function of the query, the items and the length alone.
  Once an item does not fit, the loop ends: whatever items follow, parts and length
  stay what they were before that item. For a non-empty item list the prompt ends with
  the line \<open>Query: \<close> and the query; for an empty item list it is the empty string.
\<close>

theorem create_context_prompt_shape:
  "(query = query' \<and> items = items' \<and> mx = mx' \<longrightarrow>
      create_context_prompt f query items mx = create_context_prompt f query' items' mx')
   \<and> (add_items f mx i xs parts cur = (parts', cur')
        \<and> length parts' = length parts + length xs
        \<and> cur' + int (length (item_summary f mx cur' (i + length xs) x)) > mx \<longrightarrow>
      add_items f mx i (xs @ x # ys) parts cur = (parts', cur'))
   \<and> (items \<noteq> [] \<longrightarrow>
      (\<exists>body. create_context_prompt f query items mx = body @ ''Query: '' @ query @ nl))
   \<and> (items = [] \<longrightarrow> create_context_prompt f query items mx = [])"
proof (intro conjI impI)
  assume "query = query' \<and> items = items' \<and> mx = mx'"
  then show "create_context_prompt f query items mx = create_context_prompt f query' items' mx'"
    by simp
next
  assume a: "add_items f mx i xs parts cur = (parts', cur')
        \<and> length parts' = length parts + length xs
        \<and> cur' + int (length (item_summary f mx cur' (i + length xs) x)) > mx"
  then have "add_items f mx i (xs @ x # ys) parts cur = add_items f mx (i + length xs) (x # ys) parts' cur'"
    by (simp add: add_items_append)
  also have "\<dots> = (parts', cur')" using a by (simp add: Let_def)
  finally show "add_items f mx i (xs @ x # ys) parts cur = (parts', cur')" .
next
  assume "items \<noteq> []"
  define parts where
    "parts = fst (add_items f mx 1 items context_header (int (length (join_nl context_header))))"
  from add_items_parts [of f mx 1 items context_header "int (length (join_nl context_header))"]
  have ne: "parts \<noteq> []" by (auto simp: parts_def context_header_def)
  have "join_nl (parts @ [''Query: '' @ query, []]) = join_nl ((parts @ [''Query: '' @ query]) @ [[]])"
    by simp
  also have "\<dots> = join_nl (parts @ [''Query: '' @ query]) @ nl @ []"
    by (rule join_nl_snoc) simp
  also have "\<dots> = (join_nl parts @ nl) @ ''Query: '' @ query @ nl"
    using ne by (simp add: join_nl_snoc)
  finally have "create_context_prompt f query items mx = (join_nl parts @ nl) @ ''Query: '' @ query @ nl"
    using \<open>items \<noteq> []\<close> by (simp add: create_context_prompt_def Let_def parts_def)
  then show "\<exists>body. create_context_prompt f query items mx = body @ ''Query: '' @ query @ nl"
    by blast
next
  assume "items = []"
  then show "create_context_prompt f query items mx = []"
    by (simp add: create_context_prompt_def)
qed

lemmas prompt_eval =
  item_summary_def example_fmt2f_def plain_item_def titled_item_def str_nat_digit digit_char_def

theorem create_context_prompt_shape_witness:
  "add_items example_fmt2f 110 1 [plain_item] context_header 45
     = (context_header @ [''Source 1 (similarity: 0.50):'' @ nl], 74)
   \<and> add_items example_fmt2f 110 1 ([plain_item] @ titled_item # [plain_item]) context_header 45
     = (context_header @ [''Source 1 (similarity: 0.50):'' @ nl], 74)
   \<and> (\<exists>body. create_context_prompt example_fmt2f ''what is new'' [plain_item] 110
         = body @ ''Query: '' @ ''what is new'' @ nl)
   \<and> create_context_prompt example_fmt2f ''what is new'' [] 110 = []"
proof -
  have a: "add_items example_fmt2f 110 1 [plain_item] context_header 45
     = (context_header @ [''Source 1 (similarity: 0.50):'' @ nl], 74)"
    by (simp add: prompt_eval nl_def)
  have b: "length (context_header @ [''Source 1 (similarity: 0.50):'' @ nl])
             = length context_header + length [plain_item]"
    by simp
  have c: "74 + int (length (item_summary example_fmt2f 110 74 (1 + length [plain_item]) titled_item)) > 110"
    by (simp add: prompt_eval nl_def)
  from create_context_prompt_shape [where f = example_fmt2f and mx = 110 and i = 1
      and xs = "[plain_item]" and parts = context_header and cur = 45
      and parts' = "context_header @ [''Source 1 (similarity: 0.50):'' @ nl]" and cur' = 74
      and x = titled_item and ys = "[plain_item]"] a b c
  have d: "add_items example_fmt2f 110 1 ([plain_item] @ titled_item # [plain_item]) context_header 45
     = (context_header @ [''Source 1 (similarity: 0.50):'' @ nl], 74)"
    by blast
  have e: "[plain_item] \<noteq> []" by simp
  from create_context_prompt_shape [where f = example_fmt2f and mx = 110
      and items = "[plain_item]" and query = "''what is new''"] e
  have g: "\<exists>body. create_context_prompt example_fmt2f ''what is new'' [plain_item] 110
         = body @ ''Query: '' @ ''what is new'' @ nl"
    by blast
  from create_context_prompt_shape [where f = example_fmt2f and mx = 110
      and items = "[]" and query = "''what is new''"]
  have h: "create_context_prompt example_fmt2f ''what is new'' [] 110 = []"
    by blast
  from a d g h show ?thesis by blast
qed

text \<open>
  C9 as stated fails for an empty item list: the prompt is empty, the query is not in
  it.
\<close>

theorem create_context_prompt_empty_counterexample:
  "create_context_prompt example_fmt2f ''what is new'' [] 3000 = []
   \<and> \<not> (\<exists>body rest. create_context_prompt example_fmt2f ''what is new'' [] 3000
                        = body @ ''what is new'' @ rest)"
  by (simp add: create_context_prompt_def)

end
